theory Spec2Isabelle
  imports Main "HOL-Library.Sublist" "HOL-Library.Char_ord" "HOL-Library.List_Lexorder"
    "HOL-Library.Multiset"
begin

section \<open>Strings as the source uses them\<close>

text \<open>
  Python strings are modelled as \<open>string\<close>, one \<open>char\<close> per code point below 256.
  \<open>str.replace("_", "-")\<close> maps every underscore to a hyphen.
\<close>

definition replace_underscores :: "string \<Rightarrow> string" where
  "replace_underscores s = map (\<lambda>c. if c = CHR ''_'' then CHR ''-'' else c) s"

text \<open>
  The whitespace class of \<open>str.strip()\<close> and of the regular expression's \<open>\s\<close>
  (for code points below 256): tab, line feed, vertical tab, form feed, carriage return,
  the separators 28 to 31, the space, NEL (133) and the no-break space (160).
\<close>

definition py_isspace :: "char \<Rightarrow> bool" where
  "py_isspace c =
     (of_char c \<in> set [9, 10, 11, 12, 13, 28, 29, 30, 31, 32, 133, 160 :: nat])"

definition strip :: "string \<Rightarrow> string" where
  "strip s = rev (dropWhile py_isspace (rev (dropWhile py_isspace s)))"

text \<open>\<open>xs in ys\<close> on Python strings: \<open>xs\<close> occurs in \<open>ys\<close> as a contiguous run.\<close>

fun is_substring :: "string \<Rightarrow> string \<Rightarrow> bool" where
  "is_substring xs [] = (xs = [])"
| "is_substring xs (y # ys) = (prefix xs (y # ys) \<or> is_substring xs ys)"

text \<open>
  \<open>sorted(xs, key=len, reverse=True)\<close>: Python's sort is stable, also under
  \<open>reverse=True\<close>, so elements of equal length keep their original order.
\<close>

definition sorted_by_len_desc :: "string list \<Rightarrow> string list" where
  "sorted_by_len_desc xs = sort_key (\<lambda>s. - int (length s)) xs"

section \<open>The regular expression of \<open>get_env_name_for_alias\<close>\<close>

text \<open>
  \<open>re.findall(r"(?:\s*?#.*\n*)*([^#^\n]*)", a)\<close>.

  One comment group \<open>\s*?#.*\n*\<close> matches a run of whitespace that ends at a \<open>#\<close>,
  the rest of that line, and every line feed that follows. It fails when the first
  character after the whitespace is not \<open>#\<close>, or the text ends.
\<close>

definition comment_group :: "string \<Rightarrow> string option" where
  "comment_group s =
     (case dropWhile py_isspace s of
        [] \<Rightarrow> None
      | c # t \<Rightarrow>
          if c = CHR ''#''
          then Some (dropWhile (\<lambda>d. d = CHR 0x0A) (dropWhile (\<lambda>d. d \<noteq> CHR 0x0A) t))
          else None)"

text \<open>The greedy repetition \<open>(?: ... )*\<close>: comment groups are consumed while one matches.\<close>

function comment_groups :: "string \<Rightarrow> string" where
  "comment_groups s = (case comment_group s of None \<Rightarrow> s | Some r \<Rightarrow> comment_groups r)"
  by pat_completeness auto
termination
proof (relation "measure length")
  show "wf (measure length)" by simp
next
  fix s r :: string
  assume "comment_group s = Some r"
  then obtain c t where st: "dropWhile py_isspace s = c # t"
    and r: "r = dropWhile (\<lambda>d. d = CHR 0x0A) (dropWhile (\<lambda>d. d \<noteq> CHR 0x0A) t)"
    by (auto simp: comment_group_def split: list.splits if_splits)
  have "length r \<le> length t"
    unfolding r
    by (rule order_trans [OF length_dropWhile_le length_dropWhile_le])
  moreover have "length (c # t) \<le> length s"
    using length_dropWhile_le [of py_isspace s] by (simp add: st)
  ultimately show "(r, s) \<in> measure length" by simp
qed

text \<open>The capture group \<open>([^#^\n]*)\<close>: the longest run free of \<open>#\<close>, \<open>^\<close> and line feed.\<close>

definition capture_char :: "char \<Rightarrow> bool" where
  "capture_char c = (c \<noteq> CHR ''#'' \<and> c \<noteq> CHR ''^'' \<and> c \<noteq> CHR 0x0A)"

text \<open>
  \<open>findall\<close> returns the capture of every match, scanning left to right. A match at a
  position always succeeds, since every part of the pattern may be empty. When the match
  is empty the capture \<open>""\<close> is recorded and the scan resumes one character further
  (no non-empty match exists at a position where the greedy one is empty); otherwise it
  resumes where the match ended. At the end of the text one last empty match is recorded.
\<close>

function findall :: "string \<Rightarrow> string list" where
  "findall s =
     (let r = comment_groups s;
          cap = takeWhile capture_char r;
          rest = dropWhile capture_char r
      in if length rest < length s then cap # findall rest
         else (case s of [] \<Rightarrow> [cap] | c # s' \<Rightarrow> cap # findall s'))"
  by pat_completeness auto
termination
  by (relation "measure length") auto

text \<open>
  Lines 199 to 203: the list \<open>aliases_for_env\<close> of one raw value block. Empty captures
  are dropped before \<open>strip\<close> and \<open>replace\<close> are applied.
\<close>

definition aliases_for_env :: "string \<Rightarrow> string list" where
  "aliases_for_env a =
     map (\<lambda>x. replace_underscores (strip x)) (filter (\<lambda>x. x \<noteq> []) (findall a))"

section \<open>The configuration and the parser object\<close>

text \<open>
  \<open>ConfigParserEnhanced(filename).configparserenhanceddata\<close> is an external
  collaborator: a mapping from section names to sections, a section being an ordered
  mapping from keys (environment names) to raw value blocks. A key given without a value
  has the value \<open>None\<close>. The functions below take the loaded configuration \<open>cfg\<close>,
  the value every evaluation of the property \<open>supported_envs\<close> yields for the file.
\<close>

type_synonym ini_section = "(string \<times> string option) list"
type_synonym config = "(string \<times> ini_section) list"

datatype error = SysExit string | KeyError string | IndexError

record parser =
  supported_envs_filename :: string
  build_name :: string
  system_name :: string
  env_names :: "string list"
  aliases :: "string list"
  cached_qualified_env_name :: "string option"

text \<open>
  Methods that \<open>ConfigKeywordParser\<close> inherits from \<open>GenConfigCommon\<close> and
  \<open>KeywordParser\<close>, whose code is not part of the sources at hand, are parameters:
  \<^item> \<open>get_values_for_section_key cfg section key\<close>: the aliases listed under one key,
    or a fatal error;
  \<^item> \<open>get_formatted_msg msg kind extras\<close>: the bordered message (\<open>None\<close> for an
    argument left to its default);
  \<^item> \<open>get_msg_for_list msg items\<close>: the bordered message for a list of items;
  \<^item> \<open>unsupported_components cfg self matched_env_name\<close>: the components of the build
    name that the versioned-component check finds unsupported;
  \<^item> \<open>assert_kw_str_node_type_is_supported cfg self matched_env_name\<close>: the node-type
    check.
\<close>

record helpers =
  get_values_for_section_key :: "config \<Rightarrow> string \<Rightarrow> string \<Rightarrow> error + string list"
  get_formatted_msg :: "string \<Rightarrow> string option \<Rightarrow> string option \<Rightarrow> string"
  get_msg_for_list :: "string \<Rightarrow> string list \<Rightarrow> string"
  unsupported_components :: "config \<Rightarrow> parser \<Rightarrow> string \<Rightarrow> string list"
  assert_kw_str_node_type_is_supported :: "config \<Rightarrow> parser \<Rightarrow> string \<Rightarrow> error + unit"

text \<open>\<open>self.supported_envs[self.system_name]\<close>: a missing section raises \<open>KeyError\<close>.\<close>

definition section_of :: "config \<Rightarrow> string \<Rightarrow> error + ini_section" where
  "section_of cfg sys = (case map_of cfg sys of None \<Rightarrow> Inl (KeyError sys) | Some sec \<Rightarrow> Inr sec)"

text \<open>The f-string fragment \<open>'{x}'\<close>: a value between two apostrophes.\<close>

definition quoted :: "string \<Rightarrow> string" where
  "quoted x = [CHR 0x27] @ x @ [CHR 0x27]"

section \<open>Alias gathering and its checks\<close>

text \<open>
  Lines 283 to 291. \<open>set(alias_list)\<close> is iterated in an order Python leaves open, each
  element once; \<open>remdups\<close> fixes one such order.
\<close>

definition assert_alias_list_values_are_unique ::
    "helpers \<Rightarrow> parser \<Rightarrow> string list \<Rightarrow> error + unit" where
  "assert_alias_list_values_are_unique h self alias_list =
     (let duplicates = filter (\<lambda>x. 1 < count_list alias_list x) (remdups alias_list)
      in if duplicates = [] then Inr ()
         else Inl (SysExit (get_msg_for_list h
                (''Aliases for '' @ quoted (system_name self) @ '' contains duplicates:'')
                duplicates)))"

text \<open>Lines 314 to 322.\<close>

definition assert_aliases_not_equal_to_env_names ::
    "helpers \<Rightarrow> parser \<Rightarrow> string list \<Rightarrow> error + unit" where
  "assert_aliases_not_equal_to_env_names h self alias_list =
     (let duplicates = filter (\<lambda>x. x \<in> set (env_names self)) alias_list
      in if duplicates = [] then Inr ()
         else Inl (SysExit (get_msg_for_list h
                (''Alias found for '' @ quoted (system_name self) @
                 '' that matches an environment name:'')
                duplicates)))"

text \<open>
  Lines 154 to 157: the loop \<open>aliases += get_values_for_section_key(system_name, env_name)\<close>
  over the keys of the section, in configuration order. The first fatal error ends it.
\<close>

fun gather_aliases :: "helpers \<Rightarrow> config \<Rightarrow> string \<Rightarrow> string list \<Rightarrow> error + string list" where
  "gather_aliases h cfg sys [] = Inr []"
| "gather_aliases h cfg sys (env_name # ks) =
     (case get_values_for_section_key h cfg sys env_name of
        Inl e \<Rightarrow> Inl e
      | Inr vs \<Rightarrow>
          (case gather_aliases h cfg sys ks of
             Inl e \<Rightarrow> Inl e
           | Inr r \<Rightarrow> Inr (vs @ r)))"

text \<open>Lines 141 to 162.\<close>

definition get_aliases :: "helpers \<Rightarrow> config \<Rightarrow> parser \<Rightarrow> error + string list" where
  "get_aliases h cfg self =
     (case section_of cfg (system_name self) of
        Inl e \<Rightarrow> Inl e
      | Inr sec \<Rightarrow>
          (case gather_aliases h cfg (system_name self) (map fst sec) of
             Inl e \<Rightarrow> Inl e
           | Inr als \<Rightarrow>
               (case assert_alias_list_values_are_unique h self als of
                  Inl e \<Rightarrow> Inl e
                | Inr _ \<Rightarrow>
                    (case assert_aliases_not_equal_to_env_names h self als of
                       Inl e \<Rightarrow> Inl e
                     | Inr _ \<Rightarrow> Inr als))))"

text \<open>
  Lines 41 to 49, the constructor. \<open>get_aliases\<close> runs on the object whose
  \<open>env_names\<close> are already set and whose \<open>aliases\<close> are not yet.
\<close>

definition init :: "helpers \<Rightarrow> config \<Rightarrow> string \<Rightarrow> string \<Rightarrow> string \<Rightarrow> error + parser" where
  "init h cfg build_name_arg system_name_arg filename =
     (case section_of cfg system_name_arg of
        Inl e \<Rightarrow> Inl e
      | Inr sec \<Rightarrow>
          (let self = \<lparr> supported_envs_filename = filename,
                        build_name = replace_underscores build_name_arg,
                        system_name = system_name_arg,
                        env_names = sorted_by_len_desc (map fst sec),
                        aliases = [],
                        cached_qualified_env_name = None \<rparr>
           in case get_aliases h cfg self of
                Inl e \<Rightarrow> Inl e
              | Inr als \<Rightarrow> Inr (self \<lparr> aliases := sorted_by_len_desc als \<rparr>)))"

section \<open>From an alias back to its environment name\<close>

text \<open>
  Lines 193 to 206: the index of the first value block whose aliases contain
  \<open>matched_alias\<close>; blocks that are \<open>None\<close> or empty are skipped.
\<close>

fun matched_index :: "string \<Rightarrow> string option list \<Rightarrow> nat option" where
  "matched_index matched_alias [] = None"
| "matched_index matched_alias (a # rest) =
     (case a of
        None \<Rightarrow> map_option Suc (matched_index matched_alias rest)
      | Some v \<Rightarrow>
          if v = [] then map_option Suc (matched_index matched_alias rest)
          else if matched_alias \<in> set (aliases_for_env v) then Some 0
          else map_option Suc (matched_index matched_alias rest))"

text \<open>Lines 167 to 216. The one-argument call of \<open>get_formatted_msg\<close> leaves kind and extras to their defaults.\<close>

definition get_env_name_for_alias :: "helpers \<Rightarrow> config \<Rightarrow> parser \<Rightarrow> string \<Rightarrow> error + string" where
  "get_env_name_for_alias h cfg self matched_alias =
     (case section_of cfg (system_name self) of
        Inl e \<Rightarrow> Inl e
      | Inr sec \<Rightarrow>
          (let unsorted_env_names = map fst sec;
               unparsed_aliases = map snd sec
           in case matched_index matched_alias unparsed_aliases of
                None \<Rightarrow>
                  Inl (SysExit (get_formatted_msg h
                    (''Unable to find alias '' @ quoted matched_alias @ '' in aliases for '' @
                     quoted (system_name self) @ ''.\<newline>'') None None))
              | Some idx \<Rightarrow>
                  if idx < length unsorted_env_names then Inr (unsorted_env_names ! idx)
                  else Inl IndexError))"

section \<open>The message showing the supported environments\<close>

text \<open>
  Lines 255 and 256: \<open>[a for a in self.aliases if self.get_env_name_for_alias(a) == name]\<close>.
  A fatal error of \<open>get_env_name_for_alias\<close> ends the comprehension.
\<close>

fun aliases_of_name :: "helpers \<Rightarrow> config \<Rightarrow> parser \<Rightarrow> string \<Rightarrow> string list \<Rightarrow> error + string list" where
  "aliases_of_name h cfg self name [] = Inr []"
| "aliases_of_name h cfg self name (a # rest) =
     (case get_env_name_for_alias h cfg self a of
        Inl e \<Rightarrow> Inl e
      | Inr owner \<Rightarrow>
          (case aliases_of_name h cfg self name rest of
             Inl e \<Rightarrow> Inl e
           | Inr r \<Rightarrow> Inr (if owner = name then a # r else r)))"

text \<open>Lines 253 to 260, for one name: its line, the heading if it has aliases, one line per alias.\<close>

definition env_block :: "string \<Rightarrow> string list \<Rightarrow> string" where
  "env_block name aliases_for_env_sorted =
     ''  - '' @ name @ ''\<newline>'' @
     (if 0 < length aliases_for_env_sorted then ''    * Aliases:\<newline>'' else '''') @
     concat (map (\<lambda>a. ''      - '' @ a @ ''\<newline>'') aliases_for_env_sorted)"

text \<open>Lines 252 to 260: the loop over the names handed to it (\<open>sorted(self.env_names)\<close>).\<close>

fun env_blocks :: "helpers \<Rightarrow> config \<Rightarrow> parser \<Rightarrow> string list \<Rightarrow> error + string" where
  "env_blocks h cfg self [] = Inr []"
| "env_blocks h cfg self (name # names) =
     (case aliases_of_name h cfg self name (aliases self) of
        Inl e \<Rightarrow> Inl e
      | Inr owned \<Rightarrow>
          (case env_blocks h cfg self names of
             Inl e \<Rightarrow> Inl e
           | Inr r \<Rightarrow> Inr (env_block name (sort owned) @ r)))"

text \<open>Lines 221 to 263.\<close>

definition get_msg_showing_supported_environments ::
    "helpers \<Rightarrow> config \<Rightarrow> parser \<Rightarrow> string \<Rightarrow> string \<Rightarrow> error + string" where
  "get_msg_showing_supported_environments h cfg self msg kind =
     (case env_blocks h cfg self (sort (env_names self)) of
        Inl e \<Rightarrow> Inl e
      | Inr body \<Rightarrow>
          Inr (get_formatted_msg h msg (Some kind)
                 (Some (''\<newline>- Supported Environments for '' @ quoted (system_name self) @
                        '':\<newline>'' @ body @
                        ''\<newline>See '' @ supported_envs_filename self @ '' for details.''))))"

section \<open>The versioned-component check\<close>

text \<open>
  Modelled from the spec: \<open>assert_kw_str_versions_for_env_name_components_are_supported\<close>
  is inherited and its code is not part of the sources at hand. Section 4.3 of the
  specification gives the wording of its failure by the number of unsupported components
  (one: \<open>'X' is not supported\<close>; two: \<open>'X' and 'Y' are not supported together\<close>; three or
  more: \<open>'X', 'Y', ... are not supported together\<close>) and says the failure always lists the
  supported environments of the system with their aliases. How the unsupported
  components are found is the parameter \<open>unsupported_components\<close>.
\<close>

fun comma_separated :: "string list \<Rightarrow> string" where
  "comma_separated [] = []"
| "comma_separated [x] = x"
| "comma_separated (x # y # r) = x @ '', '' @ comma_separated (y # r)"

definition unsupported_msg :: "string list \<Rightarrow> string" where
  "unsupported_msg u =
     (case u of
        [x] \<Rightarrow> quoted x @ '' is not supported''
      | [x, y] \<Rightarrow> quoted x @ '' and '' @ quoted y @ '' are not supported together''
      | _ \<Rightarrow> comma_separated (map quoted u) @ '' are not supported together'')"

definition assert_kw_str_versions_for_env_name_components_are_supported ::
    "helpers \<Rightarrow> config \<Rightarrow> parser \<Rightarrow> string \<Rightarrow> error + unit" where
  "assert_kw_str_versions_for_env_name_components_are_supported h cfg self matched_env_name =
     (let u = unsupported_components h cfg self matched_env_name
      in if u = [] then Inr ()
         else (case get_msg_showing_supported_environments h cfg self (unsupported_msg u) ''ERROR'' of
                 Inl e \<Rightarrow> Inl e
               | Inr msg \<Rightarrow> Inl (SysExit msg)))"

section \<open>Resolution\<close>

text \<open>Lines 104 to 110 and 113 to 117: the first key, in the stored order, that occurs in the build name.\<close>

definition match_name :: "parser \<Rightarrow> string option" where
  "match_name self = List.find (\<lambda>name. is_substring name (build_name self)) (env_names self)"

definition match_alias :: "parser \<Rightarrow> string option" where
  "match_alias self = List.find (\<lambda>alias. is_substring alias (build_name self)) (aliases self)"

definition not_found_msg :: "parser \<Rightarrow> string" where
  "not_found_msg self =
     ''Unable to find alias or environment name for system '' @ quoted (system_name self) @
     '' in\<newline>keyword string '' @ quoted (build_name self) @ ''.''"

text \<open>Lines 104 to 130: the matched environment name, by name first and by alias otherwise.\<close>

definition matched_env_name :: "helpers \<Rightarrow> config \<Rightarrow> parser \<Rightarrow> error + string" where
  "matched_env_name h cfg self =
     (case match_name self of
        Some name \<Rightarrow> Inr name
      | None \<Rightarrow>
          (case match_alias self of
             None \<Rightarrow>
               (case get_msg_showing_supported_environments h cfg self (not_found_msg self) ''ERROR'' of
                  Inl e \<Rightarrow> Inl e
                | Inr msg \<Rightarrow> Inl (SysExit msg))
           | Some matched_alias \<Rightarrow> get_env_name_for_alias h cfg self matched_alias))"

text \<open>
  Lines 103 to 139, the property \<open>qualified_env_name\<close>: the value and the object, which
  keeps the value once computed. The two \<open>print\<close> calls write to standard output only.
\<close>

definition qualified_env_name :: "helpers \<Rightarrow> config \<Rightarrow> parser \<Rightarrow> error + string \<times> parser" where
  "qualified_env_name h cfg self =
     (case cached_qualified_env_name self of
        Some q \<Rightarrow> Inr (q, self)
      | None \<Rightarrow>
          (case matched_env_name h cfg self of
             Inl e \<Rightarrow> Inl e
           | Inr m \<Rightarrow>
               (case assert_kw_str_versions_for_env_name_components_are_supported h cfg self m of
                  Inl e \<Rightarrow> Inl e
                | Inr _ \<Rightarrow>
                    (case assert_kw_str_node_type_is_supported h cfg self m of
                       Inl e \<Rightarrow> Inl e
                     | Inr _ \<Rightarrow>
                         (let q = system_name self @ ''-'' @ m
                          in Inr (q, self \<lparr> cached_qualified_env_name := Some q \<rparr>))))))"

text \<open>
  The usage the class documents: construct the parser, then read \<open>qualified_env_name\<close>.
\<close>

definition resolve :: "helpers \<Rightarrow> config \<Rightarrow> string \<Rightarrow> string \<Rightarrow> string \<Rightarrow> error + string" where
  "resolve h cfg build_name_arg system_name_arg filename =
     (case init h cfg build_name_arg system_name_arg filename of
        Inl e \<Rightarrow> Inl e
      | Inr self \<Rightarrow> map_sum id fst (qualified_env_name h cfg self))"

section \<open>The gathered aliases and the lookup's own extraction\<close>

text \<open>
  What the loop of \<open>get_env_name_for_alias\<close> reads from one value block: nothing from a
  block that is \<open>None\<close> or empty, \<open>aliases_for_env\<close> from any other.
\<close>

definition values_of_block :: "string option \<Rightarrow> string list" where
  "values_of_block a = (case a of None \<Rightarrow> [] | Some v \<Rightarrow> if v = [] then [] else aliases_for_env v)"

text \<open>The aliases \<open>get_values_for_section_key\<close> returns for a key; none if it fails.\<close>

definition gathered_for :: "helpers \<Rightarrow> config \<Rightarrow> string \<Rightarrow> string \<Rightarrow> string list" where
  "gathered_for h cfg sys key =
     (case get_values_for_section_key h cfg sys key of Inl e \<Rightarrow> [] | Inr vs \<Rightarrow> vs)"

text \<open>
  The comment at line 198 refers to \<open>get_aliases\<close> for the regular expression: gathering
  and lookup are meant to extract the same aliases from a block.
  \<open>extraction_agrees\<close> says so for a section: under every key, the aliases that
  \<open>get_values_for_section_key\<close> returns are, as a set, those the lookup reads from the
  key's block.
\<close>

definition extraction_agrees :: "helpers \<Rightarrow> config \<Rightarrow> string \<Rightarrow> ini_section \<Rightarrow> bool" where
  "extraction_agrees h cfg sys sec =
     list_all (\<lambda>kv. set (gathered_for h cfg sys (fst kv)) = set (values_of_block (snd kv))) sec"

section \<open>Loading the configuration source\<close>

text \<open>
  Lines 51 to 64, the property \<open>supported_envs\<close>: every evaluation builds a new
  \<open>ConfigParserEnhanced\<close> over the file and stores its data in \<open>_supported_envs\<close>;
  the stored value is never read back. \<open>loads\<close> counts the evaluations, \<open>file\<close> is the
  content of the configuration source.
\<close>

record io_state =
  loads :: nat
  stored_supported_envs :: "config option"

definition supported_envs :: "config \<Rightarrow> io_state \<Rightarrow> config \<times> io_state" where
  "supported_envs file s = (file, \<lparr> loads = Suc (loads s), stored_supported_envs = Some file \<rparr>)"

text \<open>Lines 141 to 162 with the load made explicit (line 155).\<close>

definition get_aliases_io ::
    "helpers \<Rightarrow> config \<Rightarrow> parser \<Rightarrow> io_state \<Rightarrow> (error + string list) \<times> io_state" where
  "get_aliases_io h file self s =
     (let (cfg, s1) = supported_envs file s
      in (case section_of cfg (system_name self) of
            Inl e \<Rightarrow> Inl e
          | Inr sec \<Rightarrow>
              (case gather_aliases h cfg (system_name self) (map fst sec) of
                 Inl e \<Rightarrow> Inl e
               | Inr als \<Rightarrow>
                   (case assert_alias_list_values_are_unique h self als of
                      Inl e \<Rightarrow> Inl e
                    | Inr _ \<Rightarrow>
                        (case assert_aliases_not_equal_to_env_names h self als of
                           Inl e \<Rightarrow> Inl e
                         | Inr _ \<Rightarrow> Inr als))),
          s1))"

text \<open>Lines 41 to 49 with the loads made explicit (line 47, and line 155 through \<open>get_aliases\<close>).\<close>

definition init_io ::
    "helpers \<Rightarrow> config \<Rightarrow> string \<Rightarrow> string \<Rightarrow> string \<Rightarrow> io_state \<Rightarrow> (error + parser) \<times> io_state" where
  "init_io h file build_name_arg system_name_arg filename s =
     (let s0 = s \<lparr> stored_supported_envs := None \<rparr>;
          (cfg, s1) = supported_envs file s0
      in case section_of cfg system_name_arg of
           Inl e \<Rightarrow> (Inl e, s1)
         | Inr sec \<Rightarrow>
             (let self = \<lparr> supported_envs_filename = filename,
                           build_name = replace_underscores build_name_arg,
                           system_name = system_name_arg,
                           env_names = sorted_by_len_desc (map fst sec),
                           aliases = [],
                           cached_qualified_env_name = None \<rparr>;
                  (r, s2) = get_aliases_io h file self s1
              in case r of
                   Inl e \<Rightarrow> (Inl e, s2)
                 | Inr als \<Rightarrow> (Inr (self \<lparr> aliases := sorted_by_len_desc als \<rparr>), s2)))"

text \<open>Lines 187 to 216 with the loads made explicit (lines 188 and 191).\<close>

definition get_env_name_for_alias_io ::
    "helpers \<Rightarrow> config \<Rightarrow> parser \<Rightarrow> string \<Rightarrow> io_state \<Rightarrow> (error + string) \<times> io_state" where
  "get_env_name_for_alias_io h file self matched_alias s =
     (let (cfg1, s1) = supported_envs file s
      in case section_of cfg1 (system_name self) of
           Inl e \<Rightarrow> (Inl e, s1)
         | Inr sec1 \<Rightarrow>
             (let unsorted_env_names = map fst sec1;
                  (cfg2, s2) = supported_envs file s1
              in case section_of cfg2 (system_name self) of
                   Inl e \<Rightarrow> (Inl e, s2)
                 | Inr sec2 \<Rightarrow>
                     (let unparsed_aliases = map snd sec2
                      in case matched_index matched_alias unparsed_aliases of
                           None \<Rightarrow>
                             (Inl (SysExit (get_formatted_msg h
                                (''Unable to find alias '' @ quoted matched_alias @
                                 '' in aliases for '' @ quoted (system_name self) @ ''.\<newline>'')
                                None None)), s2)
                         | Some idx \<Rightarrow>
                             (if idx < length unsorted_env_names
                              then Inr (unsorted_env_names ! idx)
                              else Inl IndexError, s2))))"

section \<open>A concrete instance of the collaborators\<close>

text \<open>
  For evaluating the functions on concrete configurations: the aliases of a key are
  extracted from its value block as the lookup does, messages are rendered by plain
  concatenation, and both component checks pass.
\<close>

definition plain_helpers :: helpers where
  "plain_helpers =
     \<lparr> get_values_for_section_key =
         (\<lambda>cfg sec key.
            case map_of cfg sec of
              None \<Rightarrow> Inl (KeyError sec)
            | Some s \<Rightarrow> (case map_of s key of
                           None \<Rightarrow> Inl (KeyError key)
                         | Some a \<Rightarrow> Inr (values_of_block a))),
       get_formatted_msg =
         (\<lambda>msg kind extras.
            (case kind of None \<Rightarrow> ''ERROR'' | Some k \<Rightarrow> k) @ '':  '' @ msg @
            (case extras of None \<Rightarrow> [] | Some e \<Rightarrow> e)),
       get_msg_for_list = (\<lambda>msg items. msg @ concat (map (\<lambda>i. ''\<newline>  - '' @ i) items)),
       unsupported_components = (\<lambda>cfg self m. []),
       assert_kw_str_node_type_is_supported = (\<lambda>cfg self m. Inr ()) \<rparr>"

definition example_cfg :: config where
  "example_cfg =
     [(''machine-type-1'',
       [(''intel-18.0.5-mpich-7.7.15'',
           Some ''\<newline>intel-18   # Comment here\<newline>intel      # general alias\<newline>default_env''),
        (''intel-19.0.4-mpich-7.7.15'', Some ''\<newline>intel-19'')])]"

section \<open>Example configurations\<close>

text \<open>
  The parser object at the point where the constructor calls \<open>get_aliases\<close> (line 49)
  for the two environment names of the examples.
\<close>

definition example_self :: parser where
  "example_self =
     \<lparr> supported_envs_filename = ''supported_envs.ini'',
       build_name = ''default-env'',
       system_name = ''machine-type-1'',
       env_names = [''intel-18.0.5-mpich-7.7.15'', ''intel-19.0.4-mpich-7.7.15''],
       aliases = [],
       cached_qualified_env_name = None \<rparr>"

text \<open>The alias \<open>intel\<close> under two environment names.\<close>

definition duplicate_cfg :: config where
  "duplicate_cfg =
     [(''machine-type-1'',
       [(''intel-18.0.5-mpich-7.7.15'',
           Some ''\<newline>intel-18   # Comment here\<newline>intel      # Comment here too\<newline>default-env''),
        (''intel-19.0.4-mpich-7.7.15'', Some ''\<newline>intel-19\<newline>intel'')])]"

text \<open>An alias that is the other environment's name.\<close>

definition colliding_cfg :: config where
  "colliding_cfg =
     [(''machine-type-1'',
       [(''intel-18.0.5-mpich-7.7.15'',
           Some ''\<newline>intel-18   # Comment here\<newline>intel      # Comment here too\<newline>default-env''),
        (''intel-19.0.4-mpich-7.7.15'', Some ''\<newline>intel-19\<newline>intel-18.0.5-mpich-7.7.15'')])]"

text \<open>
  The object the constructor builds from \<open>example_cfg\<close> for the system
  \<open>machine-type-1\<close>, as a function of the stored build name.
\<close>

definition example_parser :: "string \<Rightarrow> parser" where
  "example_parser b =
     \<lparr> supported_envs_filename = ''supported_envs.ini'',
       build_name = b,
       system_name = ''machine-type-1'',
       env_names = [''intel-18.0.5-mpich-7.7.15'', ''intel-19.0.4-mpich-7.7.15''],
       aliases = [''default-env'', ''intel-18'', ''intel-19'', ''intel''],
       cached_qualified_env_name = None \<rparr>"

text \<open>The sections of \<open>example_cfg\<close> in the other order: the general alias \<open>intel\<close> comes last.\<close>

definition example_cfg_swapped :: config where
  "example_cfg_swapped =
     [(''machine-type-1'',
       [(''intel-19.0.4-mpich-7.7.15'', Some ''\<newline>intel-19''),
        (''intel-18.0.5-mpich-7.7.15'',
           Some ''\<newline>intel-18   # Comment here\<newline>intel      # general alias\<newline>default_env'')])]"

text \<open>The collaborators of \<open>plain_helpers\<close> with a versioned-component check that finds \<open>u\<close> unsupported.\<close>

definition rejecting_helpers :: "string list \<Rightarrow> helpers" where
  "rejecting_helpers u = plain_helpers \<lparr> unsupported_components := (\<lambda>cfg self m. u) \<rparr>"

text \<open>The extras of a message showing the supported environments of \<open>example_cfg\<close>.\<close>

definition example_listing :: string where
  "example_listing =
     ''\<newline>- Supported Environments for 'machine-type-1':\<newline>  - intel-18.0.5-mpich-7.7.15\<newline>    * Aliases:\<newline>      - default-env\<newline>      - intel\<newline>      - intel-18\<newline>  - intel-19.0.4-mpich-7.7.15\<newline>    * Aliases:\<newline>      - intel-19\<newline>\<newline>See supported_envs.ini for details.''"


text \<open>The alias \<open>intel\<close> under two environment names, and an alias that is an environment name.\<close>

definition duplicate_colliding_cfg :: config where
  "duplicate_colliding_cfg =
     [(''machine-type-1'',
       [(''intel-18.0.5-mpich-7.7.15'',
           Some ''\<newline>intel-18   # Comment here\<newline>intel      # Comment here too\<newline>default-env''),
        (''intel-19.0.4-mpich-7.7.15'',
           Some ''\<newline>intel-19\<newline>intel\<newline>intel-18.0.5-mpich-7.7.15'')])]"

section \<open>The order of the matcher, in the words of the specification\<close>

text \<open>
  \<open>xs\<close> is \<open>orig\<close> sorted by string length descending, ties in their original order:
  the same elements, lengths never increasing, and for every length the elements of
  that length in the order \<open>orig\<close> has them.
\<close>

definition length_descending_stable :: "string list \<Rightarrow> string list \<Rightarrow> bool" where
  "length_descending_stable orig xs \<longleftrightarrow>
     mset xs = mset orig \<and>
     sorted_wrt (\<lambda>x y. length y \<le> length x) xs \<and>
     (\<forall>k. filter (\<lambda>s. length s = k) xs = filter (\<lambda>s. length s = k) orig)"

text \<open>
  \<open>r\<close> is the first key of \<open>xs\<close> that occurs in the candidate \<open>c\<close>: no key of \<open>xs\<close>
  occurs in \<open>c\<close> and \<open>r\<close> is \<open>None\<close>, or \<open>r\<close> is a key that occurs in \<open>c\<close> and no
  key before it in \<open>xs\<close> does.
\<close>

definition first_key_in :: "string \<Rightarrow> string list \<Rightarrow> string option \<Rightarrow> bool" where
  "first_key_in c xs r \<longleftrightarrow>
     (case r of
        None \<Rightarrow> list_all (\<lambda>x. \<not> is_substring x c) xs
      | Some n \<Rightarrow>
          (\<exists>pre post. xs = pre @ n # post \<and> is_substring n c \<and>
             list_all (\<lambda>x. \<not> is_substring x c) pre))"

text \<open>The environment names \<open>intel\<close> and \<open>intel-19\<close> in one section.\<close>

definition intel_cfg :: config where
  "intel_cfg =
     [(''machine-type-1'',
       [(''intel'', Some ''\<newline>default-env''),
        (''intel-19'', Some ''\<newline>newest'')])]"

text \<open>The object the constructor builds from \<open>intel_cfg\<close> for the build name \<open>intel-19-foo\<close>.\<close>

definition intel_parser :: parser where
  "intel_parser =
     \<lparr> supported_envs_filename = ''supported_envs.ini'',
       build_name = ''intel-19-foo'',
       system_name = ''machine-type-1'',
       env_names = [''intel-19'', ''intel''],
       aliases = [''default-env'', ''newest''],
       cached_qualified_env_name = None \<rparr>"

section \<open>Basic facts\<close>

lemma is_substring_iff: "is_substring xs ys \<longleftrightarrow> (\<exists>p s. ys = p @ xs @ s)"
proof (induction ys)
  case Nil
  then show ?case by auto
next
  case (Cons y ys)
  show ?case
  proof
    assume "is_substring xs (y # ys)"
    then consider "prefix xs (y # ys)" | "is_substring xs ys" by auto
    then show "\<exists>p s. y # ys = p @ xs @ s"
    proof cases
      case 1
      then obtain s where "y # ys = xs @ s" by (auto simp: prefix_def)
      then have "y # ys = [] @ xs @ s" by simp
      then show ?thesis by blast
    next
      case 2
      with Cons.IH obtain p s where "ys = p @ xs @ s" by blast
      then have "y # ys = (y # p) @ xs @ s" by simp
      then show ?thesis by blast
    qed
  next
    assume "\<exists>p s. y # ys = p @ xs @ s"
    then obtain p s where e: "y # ys = p @ xs @ s" by blast
    show "is_substring xs (y # ys)"
    proof (cases p)
      case Nil
      with e have "prefix xs (y # ys)" by (simp add: prefix_def)
      then show ?thesis by simp
    next
      case (Cons a p')
      with e have "ys = p' @ xs @ s" by simp
      with Cons.IH have "is_substring xs ys" by blast
      then show ?thesis by simp
    qed
  qed
qed

lemma replace_underscores_idem:
  "replace_underscores (replace_underscores s) = replace_underscores s"
  by (simp add: replace_underscores_def)

text \<open>
  A key without underscores that occurs in the build name as given also occurs in the
  build name as stored.
\<close>

lemma replace_underscores_append:
  "replace_underscores (xs @ ys) = replace_underscores xs @ replace_underscores ys"
  by (simp add: replace_underscores_def)

lemma replace_underscores_id: "CHR ''_'' \<notin> set xs \<Longrightarrow> replace_underscores xs = xs"
  by (induction xs) (auto simp: replace_underscores_def)

lemma substring_survives_normalisation:
  assumes "CHR ''_'' \<notin> set key" "is_substring key b"
  shows "is_substring key (replace_underscores b)"
proof -
  from assms(2) obtain p s where "b = p @ key @ s" by (auto simp: is_substring_iff)
  then have "replace_underscores b = replace_underscores p @ key @ replace_underscores s"
    by (simp add: replace_underscores_append replace_underscores_id [OF assms(1)])
  then show ?thesis unfolding is_substring_iff by blast
qed

section \<open>Underscores and hyphens in the build name\<close>

text \<open>
  C7. Resolution is invariant under replacing underscores with hyphens in the candidate:
  the constructor builds the same object from a build name and from that build name with
  every underscore replaced by a hyphen, so resolving either gives the same qualified
  name or the same failure.
\<close>

theorem resolution_underscore_invariant:
  "init h cfg (replace_underscores b) sys f = init h cfg b sys f \<and>
   resolve h cfg (replace_underscores b) sys f = resolve h cfg b sys f"
  by (simp add: resolve_def init_def replace_underscores_idem cong: sum.case_cong)

section \<open>The two checks of alias gathering\<close>

lemma distinct_count_list_le1: "distinct xs \<longleftrightarrow> (\<forall>x. count_list xs x \<le> 1)"
proof (induction xs)
  case Nil
  then show ?case by simp
next
  case (Cons a xs)
  have "(\<forall>x. count_list (a # xs) x \<le> 1) \<longleftrightarrow> count_list xs a = 0 \<and> (\<forall>x. count_list xs x \<le> 1)"
    by (auto simp: le_Suc_eq) 
  then show ?case using Cons.IH by (simp add: count_list_0_iff)
qed

lemma repeated_iff_not_distinct: "(\<exists>x. 1 < count_list xs x) \<longleftrightarrow> \<not> distinct xs"
  by (auto simp: distinct_count_list_le1 not_le)

lemma set_duplicates:
  "set (filter (\<lambda>x. 1 < count_list xs x) (remdups xs)) = {x. 1 < count_list xs x}"
proof -
  have "1 < count_list xs x \<Longrightarrow> x \<in> set xs" for x
    using count_list_0_iff [of xs x] by auto
  then show ?thesis by auto
qed

lemma duplicates_empty_iff:
  "filter (\<lambda>x. 1 < count_list xs x) (remdups xs) = [] \<longleftrightarrow> distinct xs"
proof -
  have "filter (\<lambda>x. 1 < count_list xs x) (remdups xs) = [] \<longleftrightarrow>
        set (filter (\<lambda>x. 1 < count_list xs x) (remdups xs)) = {}"
    by (simp only: set_empty)
  also have "\<dots> \<longleftrightarrow> \<not> (\<exists>x. 1 < count_list xs x)"
    unfolding set_duplicates by auto
  also have "\<dots> \<longleftrightarrow> distinct xs"
    using repeated_iff_not_distinct [of xs] by blast
  finally show ?thesis .
qed

lemma unique_check_passes_iff:
  "assert_alias_list_values_are_unique h self xs = Inr () \<longleftrightarrow> distinct xs"
  unfolding assert_alias_list_values_are_unique_def Let_def duplicates_empty_iff
  by simp

lemma unique_check_fails:
  "\<not> distinct xs \<Longrightarrow>
   assert_alias_list_values_are_unique h self xs =
     Inl (SysExit (get_msg_for_list h
       (''Aliases for '' @ quoted (system_name self) @ '' contains duplicates:'')
       (filter (\<lambda>x. 1 < count_list xs x) (remdups xs))))"
  unfolding assert_alias_list_values_are_unique_def Let_def duplicates_empty_iff
  by simp

lemma collision_check_passes_iff:
  "assert_aliases_not_equal_to_env_names h self xs = Inr () \<longleftrightarrow> set xs \<inter> set (env_names self) = {}"
  by (auto simp: assert_aliases_not_equal_to_env_names_def Let_def filter_empty_conv)

lemma collision_check_fails:
  "set xs \<inter> set (env_names self) \<noteq> {} \<Longrightarrow>
   assert_aliases_not_equal_to_env_names h self xs =
     Inl (SysExit (get_msg_for_list h
       (''Alias found for '' @ quoted (system_name self) @ '' that matches an environment name:'')
       (filter (\<lambda>x. x \<in> set (env_names self)) xs)))"
  by (auto simp: assert_aliases_not_equal_to_env_names_def Let_def filter_empty_conv)

lemma get_aliases_Inr_iff:
  "get_aliases h cfg self = Inr als \<longleftrightarrow>
     (\<exists>sec. section_of cfg (system_name self) = Inr sec \<and>
        gather_aliases h cfg (system_name self) (map fst sec) = Inr als \<and>
        distinct als \<and> set als \<inter> set (env_names self) = {})"
proof -
  have u: "(\<exists>u. assert_alias_list_values_are_unique h self xs = Inr u) \<longleftrightarrow> distinct xs" for xs
    using unique_check_passes_iff [of h self xs] by simp
  have c: "(\<exists>u. assert_aliases_not_equal_to_env_names h self xs = Inr u) \<longleftrightarrow>
           set xs \<inter> set (env_names self) = {}" for xs
    using collision_check_passes_iff [of h self xs] by simp
  show ?thesis
    unfolding get_aliases_def
    by (cases "section_of cfg (system_name self)";
        cases "assert_alias_list_values_are_unique h self als";
        cases "assert_aliases_not_equal_to_env_names h self als")
       (use u [of als] c [of als] in \<open>auto split: sum.splits\<close>)
qed

section \<open>The constructed object\<close>

lemma unique_check_aliases_update [simp]:
  "assert_alias_list_values_are_unique h (self \<lparr> aliases := x \<rparr>) xs =
   assert_alias_list_values_are_unique h self xs"
  by (simp add: assert_alias_list_values_are_unique_def Let_def cong: if_cong)

lemma collision_check_aliases_update [simp]:
  "assert_aliases_not_equal_to_env_names h (self \<lparr> aliases := x \<rparr>) xs =
   assert_aliases_not_equal_to_env_names h self xs"
  by (simp add: assert_aliases_not_equal_to_env_names_def Let_def cong: if_cong)

lemma get_aliases_aliases_update [simp]:
  "get_aliases h cfg (self \<lparr> aliases := x \<rparr>) = get_aliases h cfg self"
  by (simp add: get_aliases_def cong: sum.case_cong)

lemma init_InrD:
  assumes "init h cfg b sys f = Inr p"
  obtains sec als where
    "section_of cfg sys = Inr sec"
    "get_aliases h cfg p = Inr als"
    "p = \<lparr> supported_envs_filename = f, build_name = replace_underscores b,
           system_name = sys, env_names = sorted_by_len_desc (map fst sec),
           aliases = sorted_by_len_desc als, cached_qualified_env_name = None \<rparr>"
proof -
  from assms obtain sec where sec: "section_of cfg sys = Inr sec"
    by (auto simp: init_def split: sum.splits)
  define self0 where "self0 = \<lparr> supported_envs_filename = f, build_name = replace_underscores b,
           system_name = sys, env_names = sorted_by_len_desc (map fst sec),
           aliases = [], cached_qualified_env_name = None \<rparr>"
  from assms sec obtain als where als: "get_aliases h cfg self0 = Inr als"
    and p: "p = self0 \<lparr> aliases := sorted_by_len_desc als \<rparr>"
    unfolding init_def Let_def self0_def by (auto split: sum.splits)
  have "get_aliases h cfg p = Inr als" using als by (simp add: p)
  moreover have "p = \<lparr> supported_envs_filename = f, build_name = replace_underscores b,
           system_name = sys, env_names = sorted_by_len_desc (map fst sec),
           aliases = sorted_by_len_desc als, cached_qualified_env_name = None \<rparr>"
    by (simp add: p self0_def)
  ultimately show thesis using sec that by blast
qed

lemma set_sorted_by_len_desc [simp]: "set (sorted_by_len_desc xs) = set xs"
  by (simp add: sorted_by_len_desc_def)

section \<open>Repeated aliases\<close>

text \<open>
  C4. For every section whose gathered alias list contains some value more than once,
  alias gathering fails fatally, and the failure lists each repeated value exactly once,
  all of them (the list handed to \<open>get_msg_for_list\<close> is free of repetitions and its
  elements are exactly the values that occur more than once). For a gathered list with no
  repeated value the check passes and gathering goes on to the next check.
\<close>

theorem duplicated_aliases_listed_once:
  assumes "section_of cfg (system_name self) = Inr sec"
      and "gather_aliases h cfg (system_name self) (map fst sec) = Inr als"
  shows "((\<exists>x. 1 < count_list als x) \<longrightarrow>
            (\<exists>dups. get_aliases h cfg self =
                      Inl (SysExit (get_msg_for_list h
                        (''Aliases for '' @ quoted (system_name self) @ '' contains duplicates:'')
                        dups)) \<and>
                    distinct dups \<and> set dups = {x. 1 < count_list als x})) \<and>
         (\<not> (\<exists>x. 1 < count_list als x) \<longrightarrow>
            assert_alias_list_values_are_unique h self als = Inr () \<and>
            get_aliases h cfg self =
              (case assert_aliases_not_equal_to_env_names h self als of
                 Inl e \<Rightarrow> Inl e | Inr u \<Rightarrow> Inr als))"
proof (intro conjI impI)
  assume "\<exists>x. 1 < count_list als x"
  then have nd: "\<not> distinct als" using repeated_iff_not_distinct [of als] by blast
  let ?dups = "filter (\<lambda>x. 1 < count_list als x) (remdups als)"
  have "get_aliases h cfg self =
          Inl (SysExit (get_msg_for_list h
            (''Aliases for '' @ quoted (system_name self) @ '' contains duplicates:'') ?dups))"
    using assms unique_check_fails [OF nd, of h self] by (simp add: get_aliases_def)
  moreover have "distinct ?dups" by simp
  moreover have "set ?dups = {x. 1 < count_list als x}" by (rule set_duplicates)
  ultimately show "\<exists>dups. get_aliases h cfg self =
                      Inl (SysExit (get_msg_for_list h
                        (''Aliases for '' @ quoted (system_name self) @ '' contains duplicates:'')
                        dups)) \<and>
                    distinct dups \<and> set dups = {x. 1 < count_list als x}"
    by blast
next
  assume "\<not> (\<exists>x. 1 < count_list als x)"
  then have d: "distinct als" using repeated_iff_not_distinct [of als] by blast
  then show u: "assert_alias_list_values_are_unique h self als = Inr ()"
    using unique_check_passes_iff [of h self als] by blast
  show "get_aliases h cfg self =
              (case assert_aliases_not_equal_to_env_names h self als of
                 Inl e \<Rightarrow> Inl e | Inr u \<Rightarrow> Inr als)"
    using assms u by (simp add: get_aliases_def)
qed


theorem duplicated_aliases_listed_once_witness:
  "1 < count_list [''intel-18'', ''intel'', ''default-env'', ''intel-19'', ''intel''] ''intel'' \<and>
   (\<exists>dups. get_aliases plain_helpers duplicate_cfg example_self =
             Inl (SysExit (get_msg_for_list plain_helpers
               (''Aliases for '' @ quoted (system_name example_self) @ '' contains duplicates:'')
               dups)) \<and>
           distinct dups \<and>
           set dups =
             {x. 1 < count_list [''intel-18'', ''intel'', ''default-env'', ''intel-19'', ''intel''] x}) \<and>
   get_aliases plain_helpers duplicate_cfg example_self =
     Inl (SysExit (get_msg_for_list plain_helpers
       (''Aliases for '' @ quoted (system_name example_self) @ '' contains duplicates:'')
       [''intel''])) \<and>
   \<not> (\<exists>x. 1 < count_list [''intel-18'', ''intel'', ''default-env'', ''intel-19''] x) \<and>
   assert_alias_list_values_are_unique plain_helpers example_self
     [''intel-18'', ''intel'', ''default-env'', ''intel-19''] = Inr () \<and>
   get_aliases plain_helpers example_cfg example_self =
     Inr [''intel-18'', ''intel'', ''default-env'', ''intel-19'']"
proof -
  let ?D = "[''intel-18'', ''intel'', ''default-env'', ''intel-19'', ''intel'']"
  let ?G = "[''intel-18'', ''intel'', ''default-env'', ''intel-19'']"
  have s1: "section_of duplicate_cfg (system_name example_self) = Inr (snd (hd duplicate_cfg))"
    by code_simp
  have g1: "gather_aliases plain_helpers duplicate_cfg (system_name example_self)
              (map fst (snd (hd duplicate_cfg))) = Inr ?D"
    by code_simp
  have r1: "1 < count_list ?D ''intel''" by code_simp
  then have e1: "\<exists>x. 1 < count_list ?D x" by blast
  have s2: "section_of example_cfg (system_name example_self) = Inr (snd (hd example_cfg))"
    by code_simp
  have g2: "gather_aliases plain_helpers example_cfg (system_name example_self)
              (map fst (snd (hd example_cfg))) = Inr ?G"
    by code_simp
  have "distinct ?G" by code_simp
  then have n2: "\<not> (\<exists>x. 1 < count_list ?G x)"
    using repeated_iff_not_distinct [of ?G] by blast
  have c2: "assert_aliases_not_equal_to_env_names plain_helpers example_self ?G = Inr ()"
    by code_simp
  have x1: "get_aliases plain_helpers duplicate_cfg example_self =
     Inl (SysExit (get_msg_for_list plain_helpers
       (''Aliases for '' @ quoted (system_name example_self) @ '' contains duplicates:'')
       [''intel'']))"
    by code_simp
  note t1 = duplicated_aliases_listed_once [OF s1 g1]
  note t2 = duplicated_aliases_listed_once [OF s2 g2]
  from t1 e1 have a: "\<exists>dups. get_aliases plain_helpers duplicate_cfg example_self =
             Inl (SysExit (get_msg_for_list plain_helpers
               (''Aliases for '' @ quoted (system_name example_self) @ '' contains duplicates:'')
               dups)) \<and>
           distinct dups \<and> set dups = {x. 1 < count_list ?D x}"
    by blast
  from t2 n2 have b: "assert_alias_list_values_are_unique plain_helpers example_self ?G = Inr ()"
    and c: "get_aliases plain_helpers example_cfg example_self =
              (case assert_aliases_not_equal_to_env_names plain_helpers example_self ?G of
                 Inl e \<Rightarrow> Inl e | Inr u \<Rightarrow> Inr ?G)"
    by blast+
  from c c2 have d: "get_aliases plain_helpers example_cfg example_self = Inr ?G" by simp
  from r1 a x1 n2 b d show ?thesis by blast
qed

section \<open>Aliases and environment names are disjoint\<close>

text \<open>
  C5. For every section, the aliases that alias gathering returns are disjoint from the
  environment names of that section; so are the aliases of a constructed parser.
  Whenever a gathered alias equals an environment name, gathering fails fatally, and the
  check \<open>assert_aliases_not_equal_to_env_names\<close> fails with the list of the offending
  aliases. When no gathered value is repeated, that list is the failure of
  \<open>get_aliases\<close>; the check for repeated values runs first.
\<close>

theorem gathered_aliases_disjoint_from_env_names:
  "(get_aliases h cfg self = Inr als \<longrightarrow> set als \<inter> set (env_names self) = {}) \<and>
   (init h cfg b sys f = Inr p \<and> section_of cfg sys = Inr sec \<longrightarrow>
      set (env_names p) = fst ` set sec \<and> set (aliases p) \<inter> fst ` set sec = {}) \<and>
   (section_of cfg (system_name self) = Inr sec' \<and>
    gather_aliases h cfg (system_name self) (map fst sec') = Inr xs \<and>
    set xs \<inter> set (env_names self) \<noteq> {} \<longrightarrow>
      (\<exists>msg. get_aliases h cfg self = Inl (SysExit msg)) \<and>
      assert_aliases_not_equal_to_env_names h self xs =
        Inl (SysExit (get_msg_for_list h
          (''Alias found for '' @ quoted (system_name self) @ '' that matches an environment name:'')
          (filter (\<lambda>x. x \<in> set (env_names self)) xs))) \<and>
      (distinct xs \<longrightarrow>
         get_aliases h cfg self =
           Inl (SysExit (get_msg_for_list h
             (''Alias found for '' @ quoted (system_name self) @
              '' that matches an environment name:'')
             (filter (\<lambda>x. x \<in> set (env_names self)) xs)))))"
proof (intro conjI impI)
  assume "get_aliases h cfg self = Inr als"
  then show "set als \<inter> set (env_names self) = {}"
    by (auto simp: get_aliases_Inr_iff)
next
  assume a: "init h cfg b sys f = Inr p \<and> section_of cfg sys = Inr sec"
  then obtain sec0 als0 where s0: "section_of cfg sys = Inr sec0"
    and g0: "get_aliases h cfg p = Inr als0"
    and p: "p = \<lparr> supported_envs_filename = f, build_name = replace_underscores b,
           system_name = sys, env_names = sorted_by_len_desc (map fst sec0),
           aliases = sorted_by_len_desc als0, cached_qualified_env_name = None \<rparr>"
    by (blast elim: init_InrD)
  from a s0 have [simp]: "sec0 = sec" by simp
  have en: "env_names p = sorted_by_len_desc (map fst sec)"
    and al: "aliases p = sorted_by_len_desc als0"
    by (simp_all add: p)
  show e: "set (env_names p) = fst ` set sec" by (simp add: en)
  from g0 have "set als0 \<inter> set (env_names p) = {}" by (auto simp: get_aliases_Inr_iff)
  then show "set (aliases p) \<inter> fst ` set sec = {}" using e by (simp add: al)
next
  assume a: "section_of cfg (system_name self) = Inr sec' \<and>
    gather_aliases h cfg (system_name self) (map fst sec') = Inr xs \<and>
    set xs \<inter> set (env_names self) \<noteq> {}"
  then have col: "set xs \<inter> set (env_names self) \<noteq> {}" by blast
  show c: "assert_aliases_not_equal_to_env_names h self xs =
        Inl (SysExit (get_msg_for_list h
          (''Alias found for '' @ quoted (system_name self) @ '' that matches an environment name:'')
          (filter (\<lambda>x. x \<in> set (env_names self)) xs)))"
    by (rule collision_check_fails [OF col])
  show "\<exists>msg. get_aliases h cfg self = Inl (SysExit msg)"
  proof (cases "distinct xs")
    case True
    then have "assert_alias_list_values_are_unique h self xs = Inr ()"
      by (simp add: unique_check_passes_iff)
    with a c show ?thesis by (simp add: get_aliases_def)
  next
    case False
    from a unique_check_fails [OF False, of h self] show ?thesis
      by (simp add: get_aliases_def)
  qed
  assume "distinct xs"
  then have "assert_alias_list_values_are_unique h self xs = Inr ()"
    by (simp add: unique_check_passes_iff)
  with a c show "get_aliases h cfg self =
           Inl (SysExit (get_msg_for_list h
             (''Alias found for '' @ quoted (system_name self) @
              '' that matches an environment name:'')
             (filter (\<lambda>x. x \<in> set (env_names self)) xs)))"
    by (simp add: get_aliases_def)
qed


theorem gathered_aliases_disjoint_from_env_names_witness:
  "get_aliases plain_helpers example_cfg example_self =
     Inr [''intel-18'', ''intel'', ''default-env'', ''intel-19''] \<and>
   set [''intel-18'', ''intel'', ''default-env'', ''intel-19''] \<inter> set (env_names example_self) = {} \<and>
   init plain_helpers example_cfg ''intel_19'' ''machine-type-1'' ''supported_envs.ini'' =
     Inr (example_parser ''intel-19'') \<and>
   set (aliases (example_parser ''intel-19'')) \<inter> fst ` set (snd (hd example_cfg)) = {} \<and>
   set [''intel-18'', ''intel'', ''default-env'', ''intel-19'', ''intel-18.0.5-mpich-7.7.15'']
     \<inter> set (env_names example_self) \<noteq> {} \<and>
   distinct [''intel-18'', ''intel'', ''default-env'', ''intel-19'', ''intel-18.0.5-mpich-7.7.15''] \<and>
   get_aliases plain_helpers colliding_cfg example_self =
     Inl (SysExit (get_msg_for_list plain_helpers
       (''Alias found for '' @ quoted (system_name example_self) @
        '' that matches an environment name:'')
       [''intel-18.0.5-mpich-7.7.15'']))"
proof -
  let ?G = "[''intel-18'', ''intel'', ''default-env'', ''intel-19'']"
  let ?X = "[''intel-18'', ''intel'', ''default-env'', ''intel-19'', ''intel-18.0.5-mpich-7.7.15'']"
  note t = gathered_aliases_disjoint_from_env_names
  have g: "get_aliases plain_helpers example_cfg example_self = Inr ?G" by code_simp
  have i: "init plain_helpers example_cfg ''intel_19'' ''machine-type-1'' ''supported_envs.ini'' =
     Inr (example_parser ''intel-19'')" by code_simp
  have s: "section_of example_cfg ''machine-type-1'' = Inr (snd (hd example_cfg))" by code_simp
  have s': "section_of colliding_cfg (system_name example_self) = Inr (snd (hd colliding_cfg))"
    by code_simp
  have g': "gather_aliases plain_helpers colliding_cfg (system_name example_self)
              (map fst (snd (hd colliding_cfg))) = Inr ?X" by code_simp
  have col: "set ?X \<inter> set (env_names example_self) \<noteq> {}" by code_simp
  have d: "distinct ?X" by code_simp
  have f: "filter (\<lambda>x. x \<in> set (env_names example_self)) ?X = [''intel-18.0.5-mpich-7.7.15'']"
    by code_simp
  from t [where h = plain_helpers and cfg = example_cfg and self = example_self and als = ?G] g
  have 1: "set ?G \<inter> set (env_names example_self) = {}" by blast
  from t [where h = plain_helpers and cfg = example_cfg and b = "''intel_19''"
            and sys = "''machine-type-1''" and f = "''supported_envs.ini''"
            and p = "example_parser ''intel-19''" and sec = "snd (hd example_cfg)"] i s
  have 2: "set (aliases (example_parser ''intel-19'')) \<inter> fst ` set (snd (hd example_cfg)) = {}"
    by blast
  from t [where h = plain_helpers and cfg = colliding_cfg and self = example_self
            and sec' = "snd (hd colliding_cfg)" and xs = ?X]
    s' g' col d
  have "get_aliases plain_helpers colliding_cfg example_self =
           Inl (SysExit (get_msg_for_list plain_helpers
             (''Alias found for '' @ quoted (system_name example_self) @
              '' that matches an environment name:'')
             (filter (\<lambda>x. x \<in> set (env_names example_self)) ?X)))"
    by blast
  then have 3: "get_aliases plain_helpers colliding_cfg example_self =
     Inl (SysExit (get_msg_for_list plain_helpers
       (''Alias found for '' @ quoted (system_name example_self) @
        '' that matches an environment name:'')
       [''intel-18.0.5-mpich-7.7.15'']))"
    by (simp only: f)
  from g 1 i 2 col d 3 show ?thesis by blast
qed

text \<open>
  With a repeated value among the gathered aliases the failure of \<open>get_aliases\<close> is the
  one of the uniqueness check (line 159), which lists the repeated values; the alias
  that equals an environment name is not listed.
\<close>

theorem collision_not_listed_after_repetition:
  "section_of duplicate_colliding_cfg (system_name example_self) =
     Inr (snd (hd duplicate_colliding_cfg)) \<and>
   gather_aliases plain_helpers duplicate_colliding_cfg (system_name example_self)
       (map fst (snd (hd duplicate_colliding_cfg))) =
     Inr [''intel-18'', ''intel'', ''default-env'', ''intel-19'', ''intel'',
          ''intel-18.0.5-mpich-7.7.15''] \<and>
   ''intel-18.0.5-mpich-7.7.15'' \<in> set (env_names example_self) \<and>
   get_aliases plain_helpers duplicate_colliding_cfg example_self =
     Inl (SysExit (get_msg_for_list plain_helpers
       (''Aliases for '' @ quoted (system_name example_self) @ '' contains duplicates:'')
       [''intel''])) \<and>
   get_aliases plain_helpers duplicate_colliding_cfg example_self \<noteq>
     Inl (SysExit (get_msg_for_list plain_helpers
       (''Alias found for '' @ quoted (system_name example_self) @
        '' that matches an environment name:'')
       [''intel-18.0.5-mpich-7.7.15'']))"
  by code_simp

section \<open>The order of the keys and the first match\<close>

lemma sorted_by_len_desc_stable: "length_descending_stable xs (sorted_by_len_desc xs)"
proof -
  let ?f = "\<lambda>s::string. - int (length s)"
  have "sorted (map ?f (sort_key ?f xs))" by (rule sorted_sort_key)
  then have 1: "sorted_wrt (\<lambda>x y. length y \<le> length x) (sort_key ?f xs)"
    by (simp add: sorted_map)
  have 2: "filter (\<lambda>s. length s = k) (sort_key ?f xs) = filter (\<lambda>s. length s = k) xs" for k
    using sort_key_stable [of ?f "- int k" xs] by simp
  show ?thesis
    unfolding length_descending_stable_def sorted_by_len_desc_def
    using 1 2 by simp
qed

lemma find_first_key_in: "first_key_in c xs (List.find (\<lambda>x. is_substring x c) xs)"
proof (cases "List.find (\<lambda>x. is_substring x c) xs")
  case None
  then have "list_all (\<lambda>x. \<not> is_substring x c) xs"
    by (auto simp: find_None_iff list_all_iff)
  then show ?thesis by (simp add: first_key_in_def None)
next
  case (Some n)
  then obtain i where i: "i < length xs" "is_substring (xs ! i) c" "n = xs ! i"
    "\<forall>j<i. \<not> is_substring (xs ! j) c"
    by (auto simp: find_Some_iff)
  have "xs = take i xs @ n # drop (Suc i) xs"
    using i by (simp add: id_take_nth_drop)
  moreover have "list_all (\<lambda>x. \<not> is_substring x c) (take i xs)"
    using i by (auto simp: list_all_iff in_set_conv_nth)
  ultimately have "\<exists>pre post. xs = pre @ n # post \<and> is_substring n c \<and>
             list_all (\<lambda>x. \<not> is_substring x c) pre"
    using i by blast
  then show ?thesis by (simp add: first_key_in_def Some)
qed

lemma first_key_longest:
  assumes "first_key_in c xs (Some n)" "sorted_wrt (\<lambda>x y. length y \<le> length x) xs"
    "x \<in> set xs" "is_substring x c"
  shows "length x \<le> length n"
proof -
  from assms(1) obtain pre post where xs: "xs = pre @ n # post"
    and pre: "list_all (\<lambda>x. \<not> is_substring x c) pre"
    by (auto simp: first_key_in_def)
  from pre assms(4) have "x \<notin> set pre" by (auto simp: list_all_iff)
  with assms(3) xs have "x = n \<or> x \<in> set post" by auto
  then show ?thesis
    using assms(2) by (auto simp: xs sorted_wrt_append)
qed

section \<open>The matched environment name\<close>

lemma matched_env_name_by_name:
  "match_name self = Some n \<Longrightarrow> matched_env_name h cfg self = Inr n"
  by (simp add: matched_env_name_def)

lemma matched_env_name_by_alias:
  "match_name self = None \<Longrightarrow> match_alias self = Some a \<Longrightarrow>
   matched_env_name h cfg self = get_env_name_for_alias h cfg self a"
  by (simp add: matched_env_name_def)

lemma match_name_aliases_update [simp]: "match_name (self \<lparr> aliases := x \<rparr>) = match_name self"
  by (simp add: match_name_def)



section \<open>Longest key first\<close>

text \<open>
  C2. The matcher walks the environment names and, failing that, the aliases, each in an
  order sorted by string length descending with ties in the original order (of the
  configuration for the names, of the gathered list for the aliases), and returns the
  first key in that order that is a substring of the candidate: a matched name is the
  matched environment name, and no environment name that occurs in the candidate is
  longer; aliases are consulted when no name matches. The candidate is the build name
  the parser stores, underscores replaced by hyphens. With the names \<open>intel\<close> and
  \<open>intel-19\<close> and the candidate \<open>intel-19-foo\<close> the matched name is \<open>intel-19\<close>.
\<close>

theorem matcher_walks_longest_first:
  assumes "init h cfg b sys f = Inr self"
      and "section_of cfg sys = Inr sec"
      and "get_aliases h cfg self = Inr als"
  shows "length_descending_stable (map fst sec) (env_names self) \<and>
         length_descending_stable als (aliases self) \<and>
         first_key_in (replace_underscores b) (env_names self) (match_name self) \<and>
         first_key_in (replace_underscores b) (aliases self) (match_alias self) \<and>
         (\<forall>n. match_name self = Some n \<longrightarrow>
            matched_env_name h cfg self = Inr n \<and>
            (\<forall>x \<in> fst ` set sec. is_substring x (replace_underscores b) \<longrightarrow> length x \<le> length n)) \<and>
         (\<forall>a. match_name self = None \<and> match_alias self = Some a \<longrightarrow>
            matched_env_name h cfg self = get_env_name_for_alias h cfg self a \<and>
            (\<forall>x \<in> set als. is_substring x (replace_underscores b) \<longrightarrow> length x \<le> length a))"
proof -
  from assms(1) obtain sec0 als0 where s0: "section_of cfg sys = Inr sec0"
    and g0: "get_aliases h cfg self = Inr als0"
    and p: "self = \<lparr> supported_envs_filename = f, build_name = replace_underscores b,
           system_name = sys, env_names = sorted_by_len_desc (map fst sec0),
           aliases = sorted_by_len_desc als0, cached_qualified_env_name = None \<rparr>"
    by (blast elim: init_InrD)
  from s0 g0 assms have [simp]: "sec0 = sec" "als0 = als" by simp_all
  have bn: "build_name self = replace_underscores b"
    and en: "env_names self = sorted_by_len_desc (map fst sec)"
    and al: "aliases self = sorted_by_len_desc als"
    by (simp_all add: p)
  have 1: "length_descending_stable (map fst sec) (env_names self)"
    unfolding en by (rule sorted_by_len_desc_stable)
  have 2: "length_descending_stable als (aliases self)"
    unfolding al by (rule sorted_by_len_desc_stable)
  have 3: "first_key_in (replace_underscores b) (env_names self) (match_name self)"
    unfolding match_name_def bn by (rule find_first_key_in)
  have 4: "first_key_in (replace_underscores b) (aliases self) (match_alias self)"
    unfolding match_alias_def bn by (rule find_first_key_in)
  have 5: "length x \<le> length n"
    if "match_name self = Some n" "x \<in> fst ` set sec" "is_substring x (replace_underscores b)" for n x
  proof (rule first_key_longest)
    show "first_key_in (replace_underscores b) (env_names self) (Some n)" using 3 that(1) by simp
    show "sorted_wrt (\<lambda>x y. length y \<le> length x) (env_names self)"
      using 1 by (simp add: length_descending_stable_def)
    show "x \<in> set (env_names self)" using that(2) by (simp add: en)
    show "is_substring x (replace_underscores b)" by (rule that(3))
  qed
  have 6: "length x \<le> length a"
    if "match_alias self = Some a" "x \<in> set als" "is_substring x (replace_underscores b)" for a x
  proof (rule first_key_longest)
    show "first_key_in (replace_underscores b) (aliases self) (Some a)" using 4 that(1) by simp
    show "sorted_wrt (\<lambda>x y. length y \<le> length x) (aliases self)"
      using 2 by (simp add: length_descending_stable_def)
    show "x \<in> set (aliases self)" using that(2) by (simp add: al)
    show "is_substring x (replace_underscores b)" by (rule that(3))
  qed
  from 1 2 3 4 5 6 show ?thesis
    by (auto simp: matched_env_name_by_name matched_env_name_by_alias)
qed

theorem matcher_walks_longest_first_witness:
  "init plain_helpers intel_cfg ''intel-19-foo'' ''machine-type-1'' ''supported_envs.ini'' =
     Inr intel_parser \<and>
   env_names intel_parser = [''intel-19'', ''intel''] \<and>
   is_substring ''intel'' ''intel-19-foo'' \<and>
   is_substring ''intel-19'' ''intel-19-foo'' \<and>
   match_name intel_parser = Some ''intel-19'' \<and>
   matched_env_name plain_helpers intel_cfg intel_parser = Inr ''intel-19'' \<and>
   length ''intel'' \<le> length ''intel-19'' \<and>
   first_key_in ''intel-19-foo'' [''intel-19'', ''intel''] (Some ''intel-19'') \<and>
   length_descending_stable [''intel'', ''intel-19''] [''intel-19'', ''intel''] \<and>
   init plain_helpers example_cfg ''default_env-knl'' ''machine-type-1'' ''supported_envs.ini'' =
     Inr (example_parser ''default-env-knl'') \<and>
   match_name (example_parser ''default-env-knl'') = None \<and>
   match_alias (example_parser ''default-env-knl'') = Some ''default-env'' \<and>
   matched_env_name plain_helpers example_cfg (example_parser ''default-env-knl'') =
     get_env_name_for_alias plain_helpers example_cfg (example_parser ''default-env-knl'')
       ''default-env'' \<and>
   get_env_name_for_alias plain_helpers example_cfg (example_parser ''default-env-knl'')
       ''default-env'' = Inr ''intel-18.0.5-mpich-7.7.15''"
proof -
  have i1: "init plain_helpers intel_cfg ''intel-19-foo'' ''machine-type-1'' ''supported_envs.ini'' =
     Inr intel_parser" by code_simp
  have s1: "section_of intel_cfg ''machine-type-1'' = Inr (snd (hd intel_cfg))" by code_simp
  have g1: "get_aliases plain_helpers intel_cfg intel_parser = Inr [''default-env'', ''newest'']"
    by code_simp
  have r: "replace_underscores ''intel-19-foo'' = ''intel-19-foo''" by code_simp
  have k: "map fst (snd (hd intel_cfg)) = [''intel'', ''intel-19'']" by code_simp
  have e: "env_names intel_parser = [''intel-19'', ''intel'']" by code_simp
  have m: "match_name intel_parser = Some ''intel-19''" by code_simp
  have c1: "is_substring ''intel'' ''intel-19-foo''" by code_simp
  have c2: "is_substring ''intel-19'' ''intel-19-foo''" by code_simp
  have in1: "''intel'' \<in> fst ` set (snd (hd intel_cfg))" by code_simp
  note t1 = matcher_walks_longest_first [OF i1 s1 g1, unfolded r k e m]
  from t1 have a1: "matched_env_name plain_helpers intel_cfg intel_parser = Inr ''intel-19''"
    by blast
  from t1 in1 c1 have a2: "length ''intel'' \<le> length ''intel-19''" by blast
  from t1 have a3: "first_key_in ''intel-19-foo'' [''intel-19'', ''intel''] (Some ''intel-19'')"
    by blast
  from t1 have a4: "length_descending_stable [''intel'', ''intel-19''] [''intel-19'', ''intel'']"
    by blast
  have i2: "init plain_helpers example_cfg ''default_env-knl'' ''machine-type-1'' ''supported_envs.ini'' =
     Inr (example_parser ''default-env-knl'')" by code_simp
  have s2: "section_of example_cfg ''machine-type-1'' = Inr (snd (hd example_cfg))" by code_simp
  have g2: "get_aliases plain_helpers example_cfg (example_parser ''default-env-knl'') =
     Inr [''intel-18'', ''intel'', ''default-env'', ''intel-19'']" by code_simp
  have n2: "match_name (example_parser ''default-env-knl'') = None" by code_simp
  have m2: "match_alias (example_parser ''default-env-knl'') = Some ''default-env''" by code_simp
  have v2: "get_env_name_for_alias plain_helpers example_cfg (example_parser ''default-env-knl'')
       ''default-env'' = Inr ''intel-18.0.5-mpich-7.7.15''" by code_simp
  from matcher_walks_longest_first [OF i2 s2 g2] n2 m2
  have b1: "matched_env_name plain_helpers example_cfg (example_parser ''default-env-knl'') =
     get_env_name_for_alias plain_helpers example_cfg (example_parser ''default-env-knl'')
       ''default-env''" by blast
  from i1 e c1 c2 m a1 a2 a3 a4 i2 n2 m2 b1 v2 show ?thesis by blast
qed

section \<open>Names before aliases\<close>





section \<open>Bare substring containment\<close>

text \<open>
  C10. Matching is bare substring containment with no check of token boundaries. For
  every stored build name that contains an environment name or an alias as a contiguous
  run of characters, whatever stands before and after it, the matcher finds a key: the
  search does not end in the "not found" failure, the matched key is a name or alias
  that occurs in the build name and determines the matched environment name, and it is
  that very key when no other key occurs in the build name. The alias \<open>intel\<close> is
  matched inside the candidate \<open>myintelx\<close>.
\<close>

theorem substring_match_needs_no_token_boundary:
  assumes "key \<in> set (env_names self) \<union> set (aliases self)"
      and "build_name self = pre @ key @ post"
  shows "(match_name self \<noteq> None \<or> match_alias self \<noteq> None) \<and>
         (\<forall>n. match_name self = Some n \<longrightarrow>
            is_substring n (build_name self) \<and> n \<in> set (env_names self) \<and>
            matched_env_name h cfg self = Inr n) \<and>
         (\<forall>a. match_name self = None \<and> match_alias self = Some a \<longrightarrow>
            is_substring a (build_name self) \<and> a \<in> set (aliases self) \<and>
            matched_env_name h cfg self = get_env_name_for_alias h cfg self a) \<and>
         ((\<forall>k \<in> set (env_names self) \<union> set (aliases self).
              is_substring k (build_name self) \<longrightarrow> k = key) \<longrightarrow>
            match_name self = Some key \<or> (match_name self = None \<and> match_alias self = Some key))"
proof -
  have sub: "is_substring key (build_name self)"
    using assms(2) by (auto simp: is_substring_iff)
  have 1: "match_name self \<noteq> None \<or> match_alias self \<noteq> None"
    using assms(1) sub by (auto simp: match_name_def match_alias_def find_None_iff)
  have 2: "is_substring n (build_name self) \<and> n \<in> set (env_names self) \<and>
            matched_env_name h cfg self = Inr n" if "match_name self = Some n" for n
    using that matched_env_name_by_name [OF that, of h cfg]
    by (auto simp: match_name_def find_Some_iff)
  have 3: "is_substring a (build_name self) \<and> a \<in> set (aliases self) \<and>
            matched_env_name h cfg self = get_env_name_for_alias h cfg self a"
    if "match_name self = None" "match_alias self = Some a" for a
    using that matched_env_name_by_alias [OF that, of h cfg]
    by (auto simp: match_alias_def find_Some_iff)
  have 4: "match_name self = Some key \<or> (match_name self = None \<and> match_alias self = Some key)"
    if u: "\<forall>k \<in> set (env_names self) \<union> set (aliases self).
              is_substring k (build_name self) \<longrightarrow> k = key"
  proof (cases "match_name self")
    case (Some n)
    with 2 u show ?thesis by auto
  next
    case None
    with 1 obtain a where a: "match_alias self = Some a" by auto
    with 3 None u show ?thesis by auto
  qed
  from 1 2 3 4 show ?thesis by blast
qed

theorem substring_match_needs_no_token_boundary_witness:
  "init plain_helpers example_cfg ''myintelx'' ''machine-type-1'' ''supported_envs.ini'' =
     Inr (example_parser ''myintelx'') \<and>
   ''intel'' \<in> set (env_names (example_parser ''myintelx'')) \<union>
               set (aliases (example_parser ''myintelx'')) \<and>
   build_name (example_parser ''myintelx'') = ''my'' @ ''intel'' @ ''x'' \<and>
   match_name (example_parser ''myintelx'') = None \<and>
   match_alias (example_parser ''myintelx'') = Some ''intel'' \<and>
   matched_env_name plain_helpers example_cfg (example_parser ''myintelx'') =
     Inr ''intel-18.0.5-mpich-7.7.15'' \<and>
   resolve plain_helpers example_cfg ''myintelx'' ''machine-type-1'' ''supported_envs.ini'' =
     Inr ''machine-type-1-intel-18.0.5-mpich-7.7.15''"
proof -
  let ?P = "example_parser ''myintelx''"
  have i: "init plain_helpers example_cfg ''myintelx'' ''machine-type-1'' ''supported_envs.ini'' =
     Inr ?P" by code_simp
  have k: "''intel'' \<in> set (env_names ?P) \<union> set (aliases ?P)" by code_simp
  have b: "build_name ?P = ''my'' @ ''intel'' @ ''x''" by code_simp
  have n: "match_name ?P = None" by code_simp
  have u: "\<forall>k \<in> set (env_names ?P) \<union> set (aliases ?P). is_substring k (build_name ?P) \<longrightarrow> k = ''intel''"
    by code_simp
  have o: "get_env_name_for_alias plain_helpers example_cfg ?P ''intel'' =
     Inr ''intel-18.0.5-mpich-7.7.15''" by code_simp
  have r: "resolve plain_helpers example_cfg ''myintelx'' ''machine-type-1'' ''supported_envs.ini'' =
     Inr ''machine-type-1-intel-18.0.5-mpich-7.7.15''" by code_simp
  note t = substring_match_needs_no_token_boundary [OF k b, of plain_helpers example_cfg]
  from t u n have a: "match_alias ?P = Some ''intel''" by simp
  from t n a have "matched_env_name plain_helpers example_cfg ?P =
      get_env_name_for_alias plain_helpers example_cfg ?P ''intel''" by blast
  with o have m: "matched_env_name plain_helpers example_cfg ?P = Inr ''intel-18.0.5-mpich-7.7.15''"
    by simp
  from i k b n a m r show ?thesis by blast
qed

section \<open>Gathered aliases and their owners\<close>

lemma gather_aliases_Inr:
  "gather_aliases h cfg sys ks = Inr als \<Longrightarrow>
   als = concat (map (gathered_for h cfg sys) ks) \<and>
   (\<forall>k \<in> set ks. get_values_for_section_key h cfg sys k = Inr (gathered_for h cfg sys k))"
proof (induction ks arbitrary: als)
  case Nil
  then show ?case by simp
next
  case (Cons k ks)
  from Cons.prems obtain vs r where vs: "get_values_for_section_key h cfg sys k = Inr vs"
    and r: "gather_aliases h cfg sys ks = Inr r" and als: "als = vs @ r"
    by (auto split: sum.splits)
  from vs have "gathered_for h cfg sys k = vs" by (simp add: gathered_for_def)
  with Cons.IH [OF r] vs als show ?case by simp
qed

lemma distinct_concat_owner_unique:
  "distinct (concat (map g ks)) \<Longrightarrow> k \<in> set ks \<Longrightarrow> k' \<in> set ks \<Longrightarrow>
   a \<in> set (g k) \<Longrightarrow> a \<in> set (g k') \<Longrightarrow> k = k'"
  by (induction ks) auto

lemma matched_index_None_iff:
  "matched_index a vals = None \<longleftrightarrow> (\<forall>v \<in> set vals. a \<notin> set (values_of_block v))"
  by (induction vals) (auto simp: values_of_block_def split: option.splits)

lemma matched_index_Some:
  "matched_index a vals = Some i \<Longrightarrow>
   i < length vals \<and> a \<in> set (values_of_block (vals ! i))"
proof (induction vals arbitrary: i)
  case Nil
  then show ?case by simp
next
  case (Cons v vals)
  show ?case
  proof (cases "a \<in> set (values_of_block v)")
    case True
    then have "matched_index a (v # vals) = Some 0"
      by (auto simp: values_of_block_def split: option.splits if_splits)
    with Cons.prems True show ?thesis by simp
  next
    case False
    then have "matched_index a (v # vals) = map_option Suc (matched_index a vals)"
      by (auto simp: values_of_block_def split: option.splits)
    with Cons.prems have "map_option Suc (matched_index a vals) = Some i" by simp
    then obtain j where j: "matched_index a vals = Some j" "i = Suc j"
      by (cases "matched_index a vals") auto
    with Cons.IH [OF j(1)] show ?thesis by simp
  qed
qed


lemma extraction_agreesD:
  "extraction_agrees h cfg sys sec \<Longrightarrow> i < length sec \<Longrightarrow>
   set (gathered_for h cfg sys (fst (sec ! i))) = set (values_of_block (snd (sec ! i)))"
  by (simp add: extraction_agrees_def list_all_length)

lemma owner_of_gathered_alias:
  assumes sec: "section_of cfg (system_name self) = Inr sec"
      and ga: "get_aliases h cfg self = Inr als"
      and agree: "extraction_agrees h cfg (system_name self) sec"
      and a: "a \<in> set als"
  shows "\<exists>k. k \<in> fst ` set sec \<and>
             a \<in> set (gathered_for h cfg (system_name self) k) \<and>
             get_env_name_for_alias h cfg self a = Inr k \<and>
             (\<forall>k' \<in> fst ` set sec. a \<in> set (gathered_for h cfg (system_name self) k') \<longrightarrow> k' = k)"
proof -
  let ?sys = "system_name self"
  let ?g = "gathered_for h cfg ?sys"
  from ga sec have g: "gather_aliases h cfg ?sys (map fst sec) = Inr als" and d: "distinct als"
    by (auto simp: get_aliases_Inr_iff)
  from gather_aliases_Inr [OF g] have als: "als = concat (map ?g (map fst sec))" by blast
  from a als obtain k0 where k0: "k0 \<in> set (map fst sec)" "a \<in> set (?g k0)" by auto
  then obtain i where i: "i < length sec" "k0 = fst (sec ! i)"
    by (auto simp: in_set_conv_nth)
  with k0 extraction_agreesD [OF agree i(1)]
  have "a \<in> set (values_of_block (snd (sec ! i)))" by simp
  moreover have "snd (sec ! i) \<in> set (map snd sec)"
    using i(1) nth_mem [of i "map snd sec"] by simp
  ultimately have "\<not> (\<forall>v \<in> set (map snd sec). a \<notin> set (values_of_block v))"
    by blast
  then have "matched_index a (map snd sec) \<noteq> None"
    by (simp only: matched_index_None_iff not_False_eq_True)
  then obtain j where j: "matched_index a (map snd sec) = Some j" by blast
  from matched_index_Some [OF j] have jl: "j < length sec"
    and "a \<in> set (values_of_block (snd (sec ! j)))" by auto
  with extraction_agreesD [OF agree jl] have aj: "a \<in> set (?g (fst (sec ! j)))" by simp
  have res: "get_env_name_for_alias h cfg self a = Inr (fst (sec ! j))"
    using sec j jl by (simp add: get_env_name_for_alias_def)
  have mem: "fst (sec ! j) \<in> fst ` set sec" using jl by simp
  have uniq: "k' = fst (sec ! j)"
    if "k' \<in> fst ` set sec" "a \<in> set (?g k')" for k'
  proof (rule distinct_concat_owner_unique [of ?g "map fst sec"])
    show "distinct (concat (map ?g (map fst sec)))" using d als by simp
    show "k' \<in> set (map fst sec)" using that(1) by simp
    show "fst (sec ! j) \<in> set (map fst sec)" using mem by simp
    show "a \<in> set (?g k')" by (rule that(2))
    show "a \<in> set (?g (fst (sec ! j)))" by (rule aj)
  qed
  from mem aj res uniq show ?thesis by blast
qed

section \<open>From an alias back to its entry\<close>

text \<open>
  C6. For every alias in the list \<open>get_aliases\<close> returns for a section,
  \<open>get_env_name_for_alias\<close> returns the environment name under which the alias was
  gathered, the only such name of the section, wherever that entry stands in the section.
  \<open>get_values_for_section_key\<close>, which gathers the aliases of a key, is inherited code
  outside the sources at hand; the statement is for every such function that extracts
  from each value block the aliases the lookup's own regular expression reads from it
  (\<open>extraction_agrees\<close>).
\<close>

theorem alias_round_trip:
  assumes "section_of cfg (system_name self) = Inr sec"
      and "get_aliases h cfg self = Inr als"
      and "extraction_agrees h cfg (system_name self) sec"
      and "a \<in> set als"
  shows "\<exists>k vs. k \<in> fst ` set sec \<and>
           get_values_for_section_key h cfg (system_name self) k = Inr vs \<and>
           a \<in> set vs \<and>
           get_env_name_for_alias h cfg self a = Inr k \<and>
           (\<forall>k' vs'. k' \<in> fst ` set sec \<and>
                get_values_for_section_key h cfg (system_name self) k' = Inr vs' \<and>
                a \<in> set vs' \<longrightarrow> k' = k)"
proof -
  let ?sys = "system_name self"
  from owner_of_gathered_alias [OF assms] obtain k where k: "k \<in> fst ` set sec"
    and ak: "a \<in> set (gathered_for h cfg ?sys k)"
    and res: "get_env_name_for_alias h cfg self a = Inr k"
    and uniq: "\<forall>k' \<in> fst ` set sec. a \<in> set (gathered_for h cfg ?sys k') \<longrightarrow> k' = k"
    by blast
  from assms(1,2) have g: "gather_aliases h cfg ?sys (map fst sec) = Inr als"
    by (auto simp: get_aliases_Inr_iff)
  from gather_aliases_Inr [OF g] k
  have vs: "get_values_for_section_key h cfg ?sys k = Inr (gathered_for h cfg ?sys k)"
    by auto
  have "k' = k" if "k' \<in> fst ` set sec"
    "get_values_for_section_key h cfg ?sys k' = Inr vs'" "a \<in> set vs'" for k' vs'
  proof -
    from that(2) have "gathered_for h cfg ?sys k' = vs'" by (simp add: gathered_for_def)
    with that uniq show ?thesis by blast
  qed
  with k vs ak res show ?thesis by blast
qed

theorem alias_round_trip_witness:
  "get_aliases plain_helpers example_cfg example_self =
     Inr [''intel-18'', ''intel'', ''default-env'', ''intel-19''] \<and>
   extraction_agrees plain_helpers example_cfg ''machine-type-1'' (snd (hd example_cfg)) \<and>
   ''intel'' \<in> set [''intel-18'', ''intel'', ''default-env'', ''intel-19''] \<and>
   get_values_for_section_key plain_helpers example_cfg ''machine-type-1''
     ''intel-18.0.5-mpich-7.7.15'' = Inr [''intel-18'', ''intel'', ''default-env''] \<and>
   get_env_name_for_alias plain_helpers example_cfg example_self ''intel'' =
     Inr ''intel-18.0.5-mpich-7.7.15'' \<and>
   get_aliases plain_helpers example_cfg_swapped example_self =
     Inr [''intel-19'', ''intel-18'', ''intel'', ''default-env''] \<and>
   extraction_agrees plain_helpers example_cfg_swapped ''machine-type-1''
     (snd (hd example_cfg_swapped)) \<and>
   get_env_name_for_alias plain_helpers example_cfg_swapped example_self ''intel'' =
     Inr ''intel-18.0.5-mpich-7.7.15''"
proof -
  let ?K = "''intel-18.0.5-mpich-7.7.15''"
  have sn: "system_name example_self = ''machine-type-1''" by code_simp
  have s1: "section_of example_cfg (system_name example_self) = Inr (snd (hd example_cfg))"
    by code_simp
  have g1: "get_aliases plain_helpers example_cfg example_self =
     Inr [''intel-18'', ''intel'', ''default-env'', ''intel-19'']" by code_simp
  have e1: "extraction_agrees plain_helpers example_cfg (system_name example_self)
     (snd (hd example_cfg))" by code_simp
  have a1: "''intel'' \<in> set [''intel-18'', ''intel'', ''default-env'', ''intel-19'']" by simp
  have v1: "get_values_for_section_key plain_helpers example_cfg (system_name example_self) ?K =
     Inr [''intel-18'', ''intel'', ''default-env'']" by code_simp
  have k1: "?K \<in> fst ` set (snd (hd example_cfg))" by code_simp
  from alias_round_trip [OF s1 g1 e1 a1] obtain k where
    r: "get_env_name_for_alias plain_helpers example_cfg example_self ''intel'' = Inr k"
    and u: "\<forall>k' vs'. k' \<in> fst ` set (snd (hd example_cfg)) \<and>
                get_values_for_section_key plain_helpers example_cfg (system_name example_self) k'
                  = Inr vs' \<and> ''intel'' \<in> set vs' \<longrightarrow> k' = k"
    by blast
  from u k1 v1 have "?K = k" by auto
  with r have r1: "get_env_name_for_alias plain_helpers example_cfg example_self ''intel'' = Inr ?K"
    by simp
  have s2: "section_of example_cfg_swapped (system_name example_self) =
     Inr (snd (hd example_cfg_swapped))" by code_simp
  have g2: "get_aliases plain_helpers example_cfg_swapped example_self =
     Inr [''intel-19'', ''intel-18'', ''intel'', ''default-env'']" by code_simp
  have e2: "extraction_agrees plain_helpers example_cfg_swapped (system_name example_self)
     (snd (hd example_cfg_swapped))" by code_simp
  have a2: "''intel'' \<in> set [''intel-19'', ''intel-18'', ''intel'', ''default-env'']" by simp
  have v2: "get_values_for_section_key plain_helpers example_cfg_swapped (system_name example_self)
     ?K = Inr [''intel-18'', ''intel'', ''default-env'']" by code_simp
  have k2: "?K \<in> fst ` set (snd (hd example_cfg_swapped))" by code_simp
  from alias_round_trip [OF s2 g2 e2 a2] obtain k' where
    r': "get_env_name_for_alias plain_helpers example_cfg_swapped example_self ''intel'' = Inr k'"
    and u': "\<forall>k'' vs'. k'' \<in> fst ` set (snd (hd example_cfg_swapped)) \<and>
                get_values_for_section_key plain_helpers example_cfg_swapped
                  (system_name example_self) k'' = Inr vs' \<and> ''intel'' \<in> set vs' \<longrightarrow> k'' = k'"
    by blast
  from u' k2 v2 have "?K = k'" by auto
  with r' have r2: "get_env_name_for_alias plain_helpers example_cfg_swapped example_self ''intel''
     = Inr ?K" by simp
  from g1 e1 a1 v1 r1 g2 e2 r2 show ?thesis by (simp only: sn) 
qed

section \<open>The listing of the supported environments\<close>

lemma aliases_of_name_Inr:
  "(\<forall>a \<in> set xs. get_env_name_for_alias h cfg self a = Inr (own a)) \<Longrightarrow>
   aliases_of_name h cfg self name xs = Inr (filter (\<lambda>a. own a = name) xs)"
  by (induction xs) auto

lemma sort_sorted_by_len_desc: "sort (sorted_by_len_desc xs) = sort xs"
  by (rule properties_for_sort) (simp_all add: sorted_by_len_desc_def)

lemma sort_eq_if_distinct_set_eq:
  fixes xs ys :: "string list"
  assumes "distinct xs" "distinct ys" "set xs = set ys"
  shows "sort xs = sort ys"
  by (rule sorted_distinct_set_unique) (simp_all add: assms)

lemma env_blocks_Inr:
  assumes "\<And>name. name \<in> set names \<Longrightarrow>
             \<exists>owned. aliases_of_name h cfg self name (aliases self) = Inr owned \<and>
                     sort owned = sort (g name)"
  shows "env_blocks h cfg self names =
           Inr (concat (map (\<lambda>name. env_block name (sort (g name))) names))"
  using assms
proof (induction names)
  case Nil
  then show ?case by simp
next
  case (Cons name names)
  from Cons.prems [of name] obtain owned where
    o: "aliases_of_name h cfg self name (aliases self) = Inr owned" "sort owned = sort (g name)"
    by auto
  have "env_blocks h cfg self names =
           Inr (concat (map (\<lambda>name. env_block name (sort (g name))) names))"
    by (rule Cons.IH) (simp add: Cons.prems)
  with o show ?case by simp
qed


lemma supported_environments_listing:
  assumes sec: "section_of cfg (system_name self) = Inr sec"
      and ga: "get_aliases h cfg self = Inr als"
      and al: "aliases self = sorted_by_len_desc als"
      and agree: "extraction_agrees h cfg (system_name self) sec"
      and names: "set names \<subseteq> fst ` set sec"
  shows "env_blocks h cfg self names =
           Inr (concat (map (\<lambda>name. env_block name
                  (sort (gathered_for h cfg (system_name self) name))) names))"
proof -
  let ?sys = "system_name self"
  let ?g = "gathered_for h cfg ?sys"
  from ga sec have g: "gather_aliases h cfg ?sys (map fst sec) = Inr als" and d: "distinct als"
    by (auto simp: get_aliases_Inr_iff)
  from gather_aliases_Inr [OF g] have als: "als = concat (map ?g (map fst sec))" by blast
  have "\<forall>a \<in> set als. \<exists>k. k \<in> fst ` set sec \<and> a \<in> set (?g k) \<and>
             get_env_name_for_alias h cfg self a = Inr k \<and>
             (\<forall>k' \<in> fst ` set sec. a \<in> set (?g k') \<longrightarrow> k' = k)"
    using owner_of_gathered_alias [OF sec ga agree] by blast
  then obtain own where own: "\<forall>a \<in> set als. own a \<in> fst ` set sec \<and> a \<in> set (?g (own a)) \<and>
             get_env_name_for_alias h cfg self a = Inr (own a) \<and>
             (\<forall>k' \<in> fst ` set sec. a \<in> set (?g k') \<longrightarrow> k' = own a)"
    using bchoice [of "set als" "\<lambda>a k. k \<in> fst ` set sec \<and> a \<in> set (?g k) \<and>
             get_env_name_for_alias h cfg self a = Inr k \<and>
             (\<forall>k' \<in> fst ` set sec. a \<in> set (?g k') \<longrightarrow> k' = k)"]
    by blast
  have sa: "set (aliases self) = set als" by (simp add: al)
  show ?thesis
  proof (rule env_blocks_Inr)
    fix name
    assume "name \<in> set names"
    with names have nk: "name \<in> set (map fst sec)" by auto
    let ?owned = "filter (\<lambda>a. own a = name) (aliases self)"
    have 1: "aliases_of_name h cfg self name (aliases self) = Inr ?owned"
      by (rule aliases_of_name_Inr) (use own sa in auto)
    have dn: "distinct (?g name)"
      using d nk unfolding als by (auto simp: distinct_concat_iff)
    have sub: "set (?g name) \<subseteq> set als"
      using nk unfolding als by auto
    have "set ?owned = set (?g name)"
    proof
      show "set ?owned \<subseteq> set (?g name)" using own sa by auto
      show "set (?g name) \<subseteq> set ?owned"
      proof
        fix a
        assume a: "a \<in> set (?g name)"
        with sub have "a \<in> set als" by blast
        moreover from this own a nk have "own a = name" by (metis image_set)
        ultimately show "a \<in> set ?owned" using sa by simp
      qed
    qed
    moreover have "distinct ?owned" using d by (simp add: al sorted_by_len_desc_def)
    ultimately have "sort ?owned = sort (?g name)"
      using dn by (intro sort_eq_if_distinct_set_eq)
    with 1 show "\<exists>owned. aliases_of_name h cfg self name (aliases self) = Inr owned \<and>
                     sort owned = sort (?g name)"
      by blast
  qed
qed


lemma supported_environments_msg:
  assumes "init h cfg b sys f = Inr self"
      and "section_of cfg sys = Inr sec"
      and "extraction_agrees h cfg sys sec"
  shows "get_msg_showing_supported_environments h cfg self msg kind =
           Inr (get_formatted_msg h msg (Some kind)
             (Some (''\<newline>- Supported Environments for '' @ quoted sys @ '':\<newline>'' @
                    concat (map (\<lambda>name. env_block name (sort (gathered_for h cfg sys name)))
                                (sort (map fst sec))) @
                    ''\<newline>See '' @ f @ '' for details.'')))"
proof -
  from assms(1) obtain sec0 als where s0: "section_of cfg sys = Inr sec0"
    and g: "get_aliases h cfg self = Inr als"
    and p: "self = \<lparr> supported_envs_filename = f, build_name = replace_underscores b,
           system_name = sys, env_names = sorted_by_len_desc (map fst sec0),
           aliases = sorted_by_len_desc als, cached_qualified_env_name = None \<rparr>"
    by (blast elim: init_InrD)
  from s0 assms(2) have [simp]: "sec0 = sec" by simp
  have sn: "system_name self = sys" and fn: "supported_envs_filename self = f"
    and en: "env_names self = sorted_by_len_desc (map fst sec)"
    and al: "aliases self = sorted_by_len_desc als"
    by (simp_all add: p)
  have so: "sort (env_names self) = sort (map fst sec)"
    by (simp add: en sort_sorted_by_len_desc)
  have "env_blocks h cfg self (sort (map fst sec)) =
           Inr (concat (map (\<lambda>name. env_block name
                  (sort (gathered_for h cfg (system_name self) name))) (sort (map fst sec))))"
  proof (rule supported_environments_listing [OF _ g al])
    show "section_of cfg (system_name self) = Inr sec" using assms(2) by (simp add: sn)
    show "extraction_agrees h cfg (system_name self) sec" using assms(3) by (simp add: sn)
    show "set (sort (map fst sec)) \<subseteq> fst ` set sec" by simp
  qed
  then show ?thesis
    by (simp add: get_msg_showing_supported_environments_def so sn fn)
qed

section \<open>No key in the candidate\<close>

text \<open>
  C3. For every candidate in which no environment name and no alias of the target system
  occurs as a substring (the candidate being the stored build name, underscores replaced
  by hyphens), resolution fails fatally with the "not found" message, whose extras list
  every environment name of the system in alphabetical order, each followed by the
  aliases gathered under it, also in alphabetical order. The aliases gathered under a
  key are taken to be those the lookup reads from the key's block
  (\<open>extraction_agrees\<close>); \<open>get_formatted_msg\<close> renders the message.
\<close>

theorem not_found_lists_supported_environments:
  assumes "init h cfg b sys f = Inr self"
      and "section_of cfg sys = Inr sec"
      and "extraction_agrees h cfg sys sec"
      and "\<forall>k \<in> fst ` set sec. \<not> is_substring k (replace_underscores b)"
      and "\<forall>k \<in> fst ` set sec. \<forall>a \<in> set (gathered_for h cfg sys k).
             \<not> is_substring a (replace_underscores b)"
  shows "qualified_env_name h cfg self =
           Inl (SysExit (get_formatted_msg h
             (''Unable to find alias or environment name for system '' @ quoted sys @
              '' in\<newline>keyword string '' @ quoted (replace_underscores b) @ ''.'')
             (Some ''ERROR'')
             (Some (''\<newline>- Supported Environments for '' @ quoted sys @ '':\<newline>'' @
                    concat (map (\<lambda>name. env_block name (sort (gathered_for h cfg sys name)))
                                (sort (map fst sec))) @
                    ''\<newline>See '' @ f @ '' for details.'')))) \<and>
         resolve h cfg b sys f =
           Inl (SysExit (get_formatted_msg h
             (''Unable to find alias or environment name for system '' @ quoted sys @
              '' in\<newline>keyword string '' @ quoted (replace_underscores b) @ ''.'')
             (Some ''ERROR'')
             (Some (''\<newline>- Supported Environments for '' @ quoted sys @ '':\<newline>'' @
                    concat (map (\<lambda>name. env_block name (sort (gathered_for h cfg sys name)))
                                (sort (map fst sec))) @
                    ''\<newline>See '' @ f @ '' for details.''))))"
proof -
  from assms(1) obtain sec0 als where s0: "section_of cfg sys = Inr sec0"
    and g: "get_aliases h cfg self = Inr als"
    and p: "self = \<lparr> supported_envs_filename = f, build_name = replace_underscores b,
           system_name = sys, env_names = sorted_by_len_desc (map fst sec0),
           aliases = sorted_by_len_desc als, cached_qualified_env_name = None \<rparr>"
    by (blast elim: init_InrD)
  from s0 assms(2) have [simp]: "sec0 = sec" by simp
  have sn: "system_name self = sys" and bn: "build_name self = replace_underscores b"
    and en: "env_names self = sorted_by_len_desc (map fst sec)"
    and al: "aliases self = sorted_by_len_desc als"
    and ca: "cached_qualified_env_name self = None"
    by (simp_all add: p)
  from g assms(2) have ga: "gather_aliases h cfg sys (map fst sec) = Inr als"
    by (auto simp: get_aliases_Inr_iff sn)
  from gather_aliases_Inr [OF ga]
  have als: "als = concat (map (gathered_for h cfg sys) (map fst sec))" by blast
  have mn: "match_name self = None"
    using assms(4) by (auto simp: match_name_def find_None_iff en bn)
  have "\<forall>a \<in> set als. \<not> is_substring a (replace_underscores b)"
    using assms(5) unfolding als by auto
  then have ma: "match_alias self = None"
    by (auto simp: match_alias_def find_None_iff al bn)
  have nf: "not_found_msg self =
      ''Unable to find alias or environment name for system '' @ quoted sys @
      '' in\<newline>keyword string '' @ quoted (replace_underscores b) @ ''.''"
    by (simp add: not_found_msg_def sn bn)
  have m: "matched_env_name h cfg self =
           Inl (SysExit (get_formatted_msg h (not_found_msg self) (Some ''ERROR'')
             (Some (''\<newline>- Supported Environments for '' @ quoted sys @ '':\<newline>'' @
                    concat (map (\<lambda>name. env_block name (sort (gathered_for h cfg sys name)))
                                (sort (map fst sec))) @
                    ''\<newline>See '' @ f @ '' for details.''))))"
    by (simp add: matched_env_name_def mn ma supported_environments_msg [OF assms(1,2,3)])
  then have q: "qualified_env_name h cfg self =
           Inl (SysExit (get_formatted_msg h (not_found_msg self) (Some ''ERROR'')
             (Some (''\<newline>- Supported Environments for '' @ quoted sys @ '':\<newline>'' @
                    concat (map (\<lambda>name. env_block name (sort (gathered_for h cfg sys name)))
                                (sort (map fst sec))) @
                    ''\<newline>See '' @ f @ '' for details.''))))"
    by (simp add: qualified_env_name_def ca)
  then have "resolve h cfg b sys f =
           Inl (SysExit (get_formatted_msg h (not_found_msg self) (Some ''ERROR'')
             (Some (''\<newline>- Supported Environments for '' @ quoted sys @ '':\<newline>'' @
                    concat (map (\<lambda>name. env_block name (sort (gathered_for h cfg sys name)))
                                (sort (map fst sec))) @
                    ''\<newline>See '' @ f @ '' for details.''))))"
    using assms(1) by (simp add: resolve_def)
  with q show ?thesis unfolding nf by blast
qed


theorem not_found_lists_supported_environments_witness:
  "init plain_helpers example_cfg ''bad_kw_str'' ''machine-type-1'' ''supported_envs.ini'' =
     Inr (example_parser ''bad-kw-str'') \<and>
   extraction_agrees plain_helpers example_cfg ''machine-type-1'' (snd (hd example_cfg)) \<and>
   list_all (\<lambda>k. \<not> is_substring k ''bad-kw-str'')
     (env_names (example_parser ''bad-kw-str'') @ aliases (example_parser ''bad-kw-str'')) \<and>
   resolve plain_helpers example_cfg ''bad_kw_str'' ''machine-type-1'' ''supported_envs.ini'' =
     Inl (SysExit (get_formatted_msg plain_helpers
       ''Unable to find alias or environment name for system 'machine-type-1' in\<newline>keyword string 'bad-kw-str'.''
       (Some ''ERROR'')
       (Some ''\<newline>- Supported Environments for 'machine-type-1':\<newline>  - intel-18.0.5-mpich-7.7.15\<newline>    * Aliases:\<newline>      - default-env\<newline>      - intel\<newline>      - intel-18\<newline>  - intel-19.0.4-mpich-7.7.15\<newline>    * Aliases:\<newline>      - intel-19\<newline>\<newline>See supported_envs.ini for details.'')))"
proof -
  let ?h = plain_helpers and ?sec = "snd (hd example_cfg)"
  have i: "init ?h example_cfg ''bad_kw_str'' ''machine-type-1'' ''supported_envs.ini'' =
     Inr (example_parser ''bad-kw-str'')" by code_simp
  have s: "section_of example_cfg ''machine-type-1'' = Inr ?sec" by code_simp
  have e: "extraction_agrees ?h example_cfg ''machine-type-1'' ?sec" by code_simp
  have h4: "\<forall>k \<in> fst ` set ?sec. \<not> is_substring k (replace_underscores ''bad_kw_str'')"
    by code_simp
  have h5: "\<forall>k \<in> fst ` set ?sec. \<forall>a \<in> set (gathered_for ?h example_cfg ''machine-type-1'' k).
             \<not> is_substring a (replace_underscores ''bad_kw_str'')"
    by code_simp
  have l: "list_all (\<lambda>k. \<not> is_substring k ''bad-kw-str'')
     (env_names (example_parser ''bad-kw-str'') @ aliases (example_parser ''bad-kw-str''))"
    by code_simp
  have x: "''Unable to find alias or environment name for system '' @ quoted ''machine-type-1'' @
              '' in\<newline>keyword string '' @ quoted (replace_underscores ''bad_kw_str'') @ ''.'' =
     ''Unable to find alias or environment name for system 'machine-type-1' in\<newline>keyword string 'bad-kw-str'.''"
    by code_simp
  have y: "''\<newline>- Supported Environments for '' @ quoted ''machine-type-1'' @ '':\<newline>'' @
                    concat (map (\<lambda>name. env_block name
                                   (sort (gathered_for ?h example_cfg ''machine-type-1'' name)))
                                (sort (map fst ?sec))) @
                    ''\<newline>See '' @ ''supported_envs.ini'' @ '' for details.'' =
     ''\<newline>- Supported Environments for 'machine-type-1':\<newline>  - intel-18.0.5-mpich-7.7.15\<newline>    * Aliases:\<newline>      - default-env\<newline>      - intel\<newline>      - intel-18\<newline>  - intel-19.0.4-mpich-7.7.15\<newline>    * Aliases:\<newline>      - intel-19\<newline>\<newline>See supported_envs.ini for details.''"
    by code_simp
  note t = not_found_lists_supported_environments [OF i s e h4 h5]
  from t have r: "resolve ?h example_cfg ''bad_kw_str'' ''machine-type-1'' ''supported_envs.ini'' =
     Inl (SysExit (get_formatted_msg ?h
       ''Unable to find alias or environment name for system 'machine-type-1' in\<newline>keyword string 'bad-kw-str'.''
       (Some ''ERROR'')
       (Some ''\<newline>- Supported Environments for 'machine-type-1':\<newline>  - intel-18.0.5-mpich-7.7.15\<newline>    * Aliases:\<newline>      - default-env\<newline>      - intel\<newline>      - intel-18\<newline>  - intel-19.0.4-mpich-7.7.15\<newline>    * Aliases:\<newline>      - intel-19\<newline>\<newline>See supported_envs.ini for details.'')))"
    unfolding x y by blast
  from i e l r show ?thesis by blast
qed

section \<open>The message of the versioned-component check\<close>

text \<open>
  C8. When the versioned-component check finds unsupported components, the wording of
  the failure follows their number: one gives \<open>'X' is not supported\<close>, two give
  \<open>'X' and 'Y' are not supported together\<close>, three or more give a comma-separated list
  that ends in \<open>are not supported together\<close>; in every case the message carries, for the
  current system, every supported environment name with its aliases, and it is the
  failure of the resolution. The check itself is modelled from the specification; the
  listing is the source's \<open>get_msg_showing_supported_environments\<close>.
\<close>

theorem unsupported_components_message_by_count:
  assumes "init h cfg b sys f = Inr self"
      and "section_of cfg sys = Inr sec"
      and "extraction_agrees h cfg sys sec"
      and "unsupported_components h cfg self m = u"
      and "u \<noteq> []"
  shows "assert_kw_str_versions_for_env_name_components_are_supported h cfg self m =
           Inl (SysExit (get_formatted_msg h (unsupported_msg u) (Some ''ERROR'')
             (Some (''\<newline>- Supported Environments for '' @ quoted sys @ '':\<newline>'' @
                    concat (map (\<lambda>name. env_block name (sort (gathered_for h cfg sys name)))
                                (sort (map fst sec))) @
                    ''\<newline>See '' @ f @ '' for details.'')))) \<and>
         (matched_env_name h cfg self = Inr m \<longrightarrow>
            qualified_env_name h cfg self =
           Inl (SysExit (get_formatted_msg h (unsupported_msg u) (Some ''ERROR'')
             (Some (''\<newline>- Supported Environments for '' @ quoted sys @ '':\<newline>'' @
                    concat (map (\<lambda>name. env_block name (sort (gathered_for h cfg sys name)))
                                (sort (map fst sec))) @
                    ''\<newline>See '' @ f @ '' for details.''))))) \<and>
         (\<forall>x. u = [x] \<longrightarrow> unsupported_msg u = quoted x @ '' is not supported'') \<and>
         (\<forall>x y. u = [x, y] \<longrightarrow>
            unsupported_msg u = quoted x @ '' and '' @ quoted y @ '' are not supported together'') \<and>
         (\<forall>x y z r. u = x # y # z # r \<longrightarrow>
            unsupported_msg u =
              quoted x @ '', '' @ quoted y @ '', '' @ comma_separated (map quoted (z # r)) @
              '' are not supported together'')"
proof -
  from assms(1) have ca: "cached_qualified_env_name self = None"
    by (auto elim: init_InrD)
  have a: "assert_kw_str_versions_for_env_name_components_are_supported h cfg self m =
           Inl (SysExit (get_formatted_msg h (unsupported_msg u) (Some ''ERROR'')
             (Some (''\<newline>- Supported Environments for '' @ quoted sys @ '':\<newline>'' @
                    concat (map (\<lambda>name. env_block name (sort (gathered_for h cfg sys name)))
                                (sort (map fst sec))) @
                    ''\<newline>See '' @ f @ '' for details.''))))"
    using assms(4,5)
    by (simp add: assert_kw_str_versions_for_env_name_components_are_supported_def
          supported_environments_msg [OF assms(1,2,3)])
  have q: "qualified_env_name h cfg self =
           Inl (SysExit (get_formatted_msg h (unsupported_msg u) (Some ''ERROR'')
             (Some (''\<newline>- Supported Environments for '' @ quoted sys @ '':\<newline>'' @
                    concat (map (\<lambda>name. env_block name (sort (gathered_for h cfg sys name)))
                                (sort (map fst sec))) @
                    ''\<newline>See '' @ f @ '' for details.''))))"
    if "matched_env_name h cfg self = Inr m"
    using that by (simp add: qualified_env_name_def ca a)
  have 1: "unsupported_msg [x] = quoted x @ '' is not supported''" for x
    by (simp add: unsupported_msg_def)
  have 2: "unsupported_msg [x, y] = quoted x @ '' and '' @ quoted y @ '' are not supported together''"
    for x y by (simp add: unsupported_msg_def)
  have 3: "unsupported_msg (x # y # z # r) =
              quoted x @ '', '' @ quoted y @ '', '' @ comma_separated (map quoted (z # r)) @
              '' are not supported together''" for x y z r
    by (simp add: unsupported_msg_def)
  from a q 1 2 3 show ?thesis by blast
qed


theorem unsupported_components_message_by_count_witness:
  "init (rejecting_helpers [''intel-20'']) example_cfg ''intel-20'' ''machine-type-1''
      ''supported_envs.ini'' = Inr (example_parser ''intel-20'') \<and>
   qualified_env_name (rejecting_helpers [''intel-20'']) example_cfg (example_parser ''intel-20'') =
     Inl (SysExit (get_formatted_msg (rejecting_helpers [''intel-20''])
       (quoted ''intel-20'' @ '' is not supported'') (Some ''ERROR'') (Some example_listing))) \<and>
   qualified_env_name (rejecting_helpers [''intel-19'', ''mpich-7.2'']) example_cfg
       (example_parser ''intel-19-mpich-7.2'') =
     Inl (SysExit (get_formatted_msg (rejecting_helpers [''intel-19'', ''mpich-7.2''])
       (quoted ''intel-19'' @ '' and '' @ quoted ''mpich-7.2'' @ '' are not supported together'')
       (Some ''ERROR'') (Some example_listing))) \<and>
   qualified_env_name
       (rejecting_helpers [''intel-20.0.4'', ''mpich-8.7.15'', ''hsw-1.2.3'', ''openmp-4.5.6''])
       example_cfg (example_parser ''intel-20.0.4-mpich-8.7.15-hsw-1.2.3-openmp-4.5.6'') =
     Inl (SysExit (get_formatted_msg
       (rejecting_helpers [''intel-20.0.4'', ''mpich-8.7.15'', ''hsw-1.2.3'', ''openmp-4.5.6''])
       (quoted ''intel-20.0.4'' @ '', '' @ quoted ''mpich-8.7.15'' @ '', '' @
        quoted ''hsw-1.2.3'' @ '', '' @ quoted ''openmp-4.5.6'' @ '' are not supported together'')
       (Some ''ERROR'') (Some example_listing)))"
proof -
  have s: "section_of example_cfg ''machine-type-1'' = Inr (snd (hd example_cfg))" by code_simp

  have i1: "init (rejecting_helpers [''intel-20'']) example_cfg ''intel-20'' ''machine-type-1''
      ''supported_envs.ini'' = Inr (example_parser ''intel-20'')" by code_simp
  have e1: "extraction_agrees (rejecting_helpers [''intel-20'']) example_cfg ''machine-type-1''
      (snd (hd example_cfg))" by code_simp
  have u1: "unsupported_components (rejecting_helpers [''intel-20'']) example_cfg
      (example_parser ''intel-20'') ''intel-18.0.5-mpich-7.7.15'' = [''intel-20'']"
    by (simp add: rejecting_helpers_def)
  have n1: "[''intel-20''] \<noteq> ([] :: string list)" by simp
  have m1: "matched_env_name (rejecting_helpers [''intel-20'']) example_cfg (example_parser ''intel-20'') =
      Inr ''intel-18.0.5-mpich-7.7.15''" by code_simp
  have y1: "''\<newline>- Supported Environments for '' @ quoted ''machine-type-1'' @ '':\<newline>'' @
        concat (map (\<lambda>name. env_block name
           (sort (gathered_for (rejecting_helpers [''intel-20'']) example_cfg ''machine-type-1'' name)))
           (sort (map fst (snd (hd example_cfg))))) @
        ''\<newline>See '' @ ''supported_envs.ini'' @ '' for details.'' = example_listing"
    by code_simp
  note t1 = unsupported_components_message_by_count [OF i1 s e1 u1 n1, unfolded y1]

  have i2: "init (rejecting_helpers [''intel-19'', ''mpich-7.2'']) example_cfg ''intel-19-mpich-7.2'' ''machine-type-1''
      ''supported_envs.ini'' = Inr (example_parser ''intel-19-mpich-7.2'')" by code_simp
  have e2: "extraction_agrees (rejecting_helpers [''intel-19'', ''mpich-7.2'']) example_cfg ''machine-type-1''
      (snd (hd example_cfg))" by code_simp
  have u2: "unsupported_components (rejecting_helpers [''intel-19'', ''mpich-7.2'']) example_cfg
      (example_parser ''intel-19-mpich-7.2'') ''intel-19.0.4-mpich-7.7.15'' = [''intel-19'', ''mpich-7.2'']"
    by (simp add: rejecting_helpers_def)
  have n2: "[''intel-19'', ''mpich-7.2''] \<noteq> ([] :: string list)" by simp
  have m2: "matched_env_name (rejecting_helpers [''intel-19'', ''mpich-7.2'']) example_cfg (example_parser ''intel-19-mpich-7.2'') =
      Inr ''intel-19.0.4-mpich-7.7.15''" by code_simp
  have y2: "''\<newline>- Supported Environments for '' @ quoted ''machine-type-1'' @ '':\<newline>'' @
        concat (map (\<lambda>name. env_block name
           (sort (gathered_for (rejecting_helpers [''intel-19'', ''mpich-7.2'']) example_cfg ''machine-type-1'' name)))
           (sort (map fst (snd (hd example_cfg))))) @
        ''\<newline>See '' @ ''supported_envs.ini'' @ '' for details.'' = example_listing"
    by code_simp
  note t2 = unsupported_components_message_by_count [OF i2 s e2 u2 n2, unfolded y2]

  have i3: "init (rejecting_helpers [''intel-20.0.4'', ''mpich-8.7.15'', ''hsw-1.2.3'', ''openmp-4.5.6'']) example_cfg ''intel-20.0.4-mpich-8.7.15-hsw-1.2.3-openmp-4.5.6'' ''machine-type-1''
      ''supported_envs.ini'' = Inr (example_parser ''intel-20.0.4-mpich-8.7.15-hsw-1.2.3-openmp-4.5.6'')" by code_simp
  have e3: "extraction_agrees (rejecting_helpers [''intel-20.0.4'', ''mpich-8.7.15'', ''hsw-1.2.3'', ''openmp-4.5.6'']) example_cfg ''machine-type-1''
      (snd (hd example_cfg))" by code_simp
  have u3: "unsupported_components (rejecting_helpers [''intel-20.0.4'', ''mpich-8.7.15'', ''hsw-1.2.3'', ''openmp-4.5.6'']) example_cfg
      (example_parser ''intel-20.0.4-mpich-8.7.15-hsw-1.2.3-openmp-4.5.6'') ''intel-18.0.5-mpich-7.7.15'' = [''intel-20.0.4'', ''mpich-8.7.15'', ''hsw-1.2.3'', ''openmp-4.5.6'']"
    by (simp add: rejecting_helpers_def)
  have n3: "[''intel-20.0.4'', ''mpich-8.7.15'', ''hsw-1.2.3'', ''openmp-4.5.6''] \<noteq> ([] :: string list)" by simp
  have m3: "matched_env_name (rejecting_helpers [''intel-20.0.4'', ''mpich-8.7.15'', ''hsw-1.2.3'', ''openmp-4.5.6'']) example_cfg (example_parser ''intel-20.0.4-mpich-8.7.15-hsw-1.2.3-openmp-4.5.6'') =
      Inr ''intel-18.0.5-mpich-7.7.15''" by code_simp
  have y3: "''\<newline>- Supported Environments for '' @ quoted ''machine-type-1'' @ '':\<newline>'' @
        concat (map (\<lambda>name. env_block name
           (sort (gathered_for (rejecting_helpers [''intel-20.0.4'', ''mpich-8.7.15'', ''hsw-1.2.3'', ''openmp-4.5.6'']) example_cfg ''machine-type-1'' name)))
           (sort (map fst (snd (hd example_cfg))))) @
        ''\<newline>See '' @ ''supported_envs.ini'' @ '' for details.'' = example_listing"
    by code_simp
  note t3 = unsupported_components_message_by_count [OF i3 s e3 u3 n3, unfolded y3]

  from t1 m1 have r1: "qualified_env_name (rejecting_helpers [''intel-20'']) example_cfg
      (example_parser ''intel-20'') =
     Inl (SysExit (get_formatted_msg (rejecting_helpers [''intel-20''])
       (quoted ''intel-20'' @ '' is not supported'') (Some ''ERROR'') (Some example_listing)))"
    by simp
  from t2 m2 have r2: "qualified_env_name (rejecting_helpers [''intel-19'', ''mpich-7.2''])
       example_cfg (example_parser ''intel-19-mpich-7.2'') =
     Inl (SysExit (get_formatted_msg (rejecting_helpers [''intel-19'', ''mpich-7.2''])
       (quoted ''intel-19'' @ '' and '' @ quoted ''mpich-7.2'' @ '' are not supported together'')
       (Some ''ERROR'') (Some example_listing)))"
    by simp
  from t3 m3 have r3: "qualified_env_name
       (rejecting_helpers [''intel-20.0.4'', ''mpich-8.7.15'', ''hsw-1.2.3'', ''openmp-4.5.6''])
       example_cfg (example_parser ''intel-20.0.4-mpich-8.7.15-hsw-1.2.3-openmp-4.5.6'') =
     Inl (SysExit (get_formatted_msg
       (rejecting_helpers [''intel-20.0.4'', ''mpich-8.7.15'', ''hsw-1.2.3'', ''openmp-4.5.6''])
       (quoted ''intel-20.0.4'' @ '', '' @ quoted ''mpich-8.7.15'' @ '', '' @
        quoted ''hsw-1.2.3'' @ '', '' @ quoted ''openmp-4.5.6'' @ '' are not supported together'')
       (Some ''ERROR'') (Some example_listing)))"
    by simp
  from i1 r1 r2 r3 show ?thesis by blast
qed

section \<open>Loads of the configuration source\<close>

text \<open>
  The constructor and the alias lookup compute what the functions above compute, and
  every evaluation of \<open>supported_envs\<close> on their way is one more load of the source.
\<close>

lemma loads_per_access:
  "fst (init_io h cfg b sys f s) = init h cfg b sys f \<and>
   loads (snd (init_io h cfg b sys f s)) =
     loads s + (case section_of cfg sys of Inl e \<Rightarrow> 1 | Inr sec \<Rightarrow> 2) \<and>
   fst (get_env_name_for_alias_io h cfg self a s) = get_env_name_for_alias h cfg self a \<and>
   loads (snd (get_env_name_for_alias_io h cfg self a s)) =
     loads s + (case section_of cfg (system_name self) of Inl e \<Rightarrow> 1 | Inr sec \<Rightarrow> 2)"
proof (intro conjI)
  show "fst (init_io h cfg b sys f s) = init h cfg b sys f"
    by (simp add: init_io_def init_def get_aliases_io_def get_aliases_def supported_envs_def
          Let_def split: sum.splits)
  show "loads (snd (init_io h cfg b sys f s)) =
     loads s + (case section_of cfg sys of Inl e \<Rightarrow> 1 | Inr sec \<Rightarrow> 2)"
    by (simp add: init_io_def get_aliases_io_def supported_envs_def Let_def split: sum.splits)
  show "fst (get_env_name_for_alias_io h cfg self a s) = get_env_name_for_alias h cfg self a"
    by (simp add: get_env_name_for_alias_io_def get_env_name_for_alias_def supported_envs_def
          Let_def split: sum.splits option.splits)
  show "loads (snd (get_env_name_for_alias_io h cfg self a s)) =
     loads s + (case section_of cfg (system_name self) of Inl e \<Rightarrow> 1 | Inr sec \<Rightarrow> 2)"
    by (simp add: get_env_name_for_alias_io_def supported_envs_def Let_def
          split: sum.splits option.splits)
qed

text \<open>
  C9. The specification has the configuration source read once per parser object, with
  no later access loading it again. The property \<open>supported_envs\<close> has no guard on
  \<open>_supported_envs\<close>, so every evaluation loads the source: on \<open>example_cfg\<close> the
  constructor alone loads it twice (lines 47 and 155), and one lookup of an alias loads
  it twice more (lines 188 and 191).
\<close>

theorem configuration_loaded_on_every_access:
  "fst (init_io plain_helpers example_cfg ''intel-19'' ''machine-type-1'' ''supported_envs.ini''
          \<lparr> loads = 0, stored_supported_envs = None \<rparr>) = Inr (example_parser ''intel-19'') \<and>
   loads (snd (init_io plain_helpers example_cfg ''intel-19'' ''machine-type-1''
          ''supported_envs.ini'' \<lparr> loads = 0, stored_supported_envs = None \<rparr>)) = 2 \<and>
   fst (get_env_name_for_alias_io plain_helpers example_cfg (example_parser ''intel-19'')
          ''intel-19'' \<lparr> loads = 2, stored_supported_envs = Some example_cfg \<rparr>) =
     Inr ''intel-19.0.4-mpich-7.7.15'' \<and>
   loads (snd (get_env_name_for_alias_io plain_helpers example_cfg (example_parser ''intel-19'')
          ''intel-19'' \<lparr> loads = 2, stored_supported_envs = Some example_cfg \<rparr>)) = 4"
proof -
  let ?s0 = "\<lparr> loads = 0, stored_supported_envs = None \<rparr>"
  let ?s2 = "\<lparr> loads = 2, stored_supported_envs = Some example_cfg \<rparr>"
  let ?P = "example_parser ''intel-19''"
  have s: "section_of example_cfg ''machine-type-1'' = Inr (snd (hd example_cfg))" by code_simp
  have sn: "system_name ?P = ''machine-type-1''" by code_simp
  have i: "init plain_helpers example_cfg ''intel-19'' ''machine-type-1'' ''supported_envs.ini'' =
     Inr ?P" by code_simp
  have g: "get_env_name_for_alias plain_helpers example_cfg ?P ''intel-19'' =
     Inr ''intel-19.0.4-mpich-7.7.15''" by code_simp
  note a = loads_per_access [where h = plain_helpers and cfg = example_cfg
     and b = "''intel-19''" and sys = "''machine-type-1''" and f = "''supported_envs.ini''"
     and s = ?s0]
  note c = loads_per_access [where h = plain_helpers and cfg = example_cfg and self = ?P
     and a = "''intel-19''" and s = ?s2]
  from a i have 1: "fst (init_io plain_helpers example_cfg ''intel-19'' ''machine-type-1''
     ''supported_envs.ini'' ?s0) = Inr ?P" by simp
  from a s have 2: "loads (snd (init_io plain_helpers example_cfg ''intel-19'' ''machine-type-1''
     ''supported_envs.ini'' ?s0)) = 2" by simp
  from c g have 3: "fst (get_env_name_for_alias_io plain_helpers example_cfg ?P ''intel-19'' ?s2) =
     Inr ''intel-19.0.4-mpich-7.7.15''" by simp
  from c s sn have 4: "loads (snd (get_env_name_for_alias_io plain_helpers example_cfg ?P
     ''intel-19'' ?s2)) = 4" by simp
  from 1 2 3 4 show ?thesis by blast
qed

end
